theory Spec2Isabelle
  imports Main "HOL-Library.Code_Target_Nat"
begin

section \<open>Python strings\<close>

text \<open>
  Two models of a Python \<open>str\<close> are used. Where the code only compares, joins or prints a
  text, and where it parses an amount, the text is a \<^typ>\<open>string\<close>, a list of 8-bit
  characters: that model is for ASCII text, on which Python's \<open>str.lower\<close>, \<open>str.strip\<close>
  and \<open>\d\<close> are the functions \<open>lower\<close>, \<open>strip\<close> and \<open>is_digit\<close> below (on other text Python
  also folds, strips and reads characters outside ASCII, which these functions do not).
  The rule matcher, whose texts are arbitrary, works on \<open>ustr\<close>, the list of a text's
  Unicode code points, and takes \<open>str.lower\<close> and \<open>str.strip\<close> as parameters.
\<close>

type_synonym ustr = "nat list"

definition ustr :: "string \<Rightarrow> ustr" where
  \<comment> \<open>the code points of an ASCII literal\<close>
  "ustr s = map of_char s"

definition upper_letters :: string where
  "upper_letters = ''ABCDEFGHIJKLMNOPQRSTUVWXYZ''"

definition lower_letters :: string where
  "lower_letters = ''abcdefghijklmnopqrstuvwxyz''"

definition lower_char :: "char \<Rightarrow> char" where
  "lower_char c = (case map_of (zip upper_letters lower_letters) c of Some d \<Rightarrow> d | None \<Rightarrow> c)"

definition lower :: "string \<Rightarrow> string" where
  "lower s = map lower_char s"

definition is_space :: "char \<Rightarrow> bool" where
  \<comment> \<open>\<open>str.isspace\<close> on ASCII: space, \<open>\t \n \v \f \r\<close> and the separators 0x1c to 0x1f\<close>
  "is_space c = (c \<in> set [CHR 0x20, CHR 0x09, CHR 0x0A, CHR 0x0B, CHR 0x0C, CHR 0x0D,
                             CHR 0x1C, CHR 0x1D, CHR 0x1E, CHR 0x1F])"

definition lstrip :: "string \<Rightarrow> string" where
  "lstrip s = dropWhile is_space s"

definition rstrip :: "string \<Rightarrow> string" where
  "rstrip s = rev (dropWhile is_space (rev s))"

definition strip :: "string \<Rightarrow> string" where
  "strip s = rstrip (lstrip s)"

fun startswith :: "'a list \<Rightarrow> 'a list \<Rightarrow> bool" where
  "startswith s [] = True"
| "startswith [] (p # ps) = False"
| "startswith (c # cs) (p # ps) = (c = p \<and> startswith cs ps)"

definition endswith :: "'a list \<Rightarrow> 'a list \<Rightarrow> bool" where
  "endswith s p = startswith (rev s) (rev p)"

fun contains :: "'a list \<Rightarrow> 'a list \<Rightarrow> bool" where
  \<comment> \<open>\<open>contains s kw\<close> is Python's \<open>kw in s\<close>\<close>
  "contains [] kw = (kw = [])"
| "contains (c # cs) kw = (startswith (c # cs) kw \<or> contains cs kw)"

fun split_on :: "'a \<Rightarrow> 'a list \<Rightarrow> 'a list list" where
  \<comment> \<open>\<open>s.split(sep)\<close> for a one-character separator\<close>
  "split_on sep [] = [[]]"
| "split_on sep (c # cs) =
     (if c = sep then [] # split_on sep cs
      else (case split_on sep cs of [] \<Rightarrow> [[c]] | w # ws \<Rightarrow> (c # w) # ws))"

definition remove_char :: "char \<Rightarrow> string \<Rightarrow> string" where
  \<comment> \<open>\<open>s.replace(c, "")\<close>\<close>
  "remove_char c s = filter (\<lambda>x. x \<noteq> c) s"

subsection \<open>Decimal digits\<close>

definition digit_chars :: string where
  "digit_chars = ''0123456789''"

definition is_digit :: "char \<Rightarrow> bool" where
  "is_digit c = (c \<in> set digit_chars)"

definition digit_val :: "char \<Rightarrow> nat" where
  "digit_val c = (case map_of (zip digit_chars [0 ..< 10]) c of Some d \<Rightarrow> d | None \<Rightarrow> 0)"

definition digit_char :: "nat \<Rightarrow> char" where
  "digit_char d = digit_chars ! (d mod 10)"

definition nat_of_digits :: "string \<Rightarrow> nat" where
  \<comment> \<open>\<open>int(ds)\<close> for a string of digits; the empty string counts as 0 where the callers
      write \<open>int(ds or '0')\<close>\<close>
  "nat_of_digits ds = foldl (\<lambda>n c. 10 * n + digit_val c) 0 ds"

fun digits_of_nat :: "nat \<Rightarrow> string" where
  \<comment> \<open>\<open>str(n)\<close> for \<open>n \<ge> 0\<close>\<close>
  "digits_of_nat n = (if n < 10 then [digit_char n] else digits_of_nat (n div 10) @ [digit_char n])"

declare digits_of_nat.simps [simp del]

definition str_int :: "int \<Rightarrow> string" where
  "str_int i = (if i < 0 then CHR ''-'' # digits_of_nat (nat (- i)) else digits_of_nat (nat i))"

section \<open>Exceptions\<close>

text \<open>
  The exception classes of \<open>backend/ledger/repos.py\<close> (\<open>NotFoundError\<close> and
  \<open>ValidationError\<close>, both \<open>RepoError\<close>s) and the library exceptions the modelled code can
  raise. Each carries its message, \<open>str(e)\<close>.
\<close>

datatype exn =
    NotFoundError string
  | ValidationError string
  | InvalidOperation string
  | ValueError string
  | TypeError string
  | AttributeError string
  | IntegrityError string
  | OverflowError string
  | RecursionError string
  | MemoryError string

fun exn_message :: "exn \<Rightarrow> string" where
  "exn_message (NotFoundError m) = m"
| "exn_message (ValidationError m) = m"
| "exn_message (InvalidOperation m) = m"
| "exn_message (ValueError m) = m"
| "exn_message (TypeError m) = m"
| "exn_message (AttributeError m) = m"
| "exn_message (IntegrityError m) = m"
| "exn_message (OverflowError m) = m"
| "exn_message (RecursionError m) = m"
| "exn_message (MemoryError m) = m"

fun is_ValidationError :: "exn \<Rightarrow> bool" where
  "is_ValidationError (ValidationError m) = True"
| "is_ValidationError e = False"

fun is_NotFoundError :: "exn \<Rightarrow> bool" where
  "is_NotFoundError (NotFoundError m) = True"
| "is_NotFoundError e = False"

section \<open>\<open>decimal.Decimal\<close> under the default context\<close>

text \<open>
  A \<open>Decimal\<close> is a sign, a coefficient and an exponent, or an infinity, or a NaN (quiet or
  signalling, with a payload). The repository never changes the context, so arithmetic runs
  under Python's default one: precision 28, \<open>ROUND_HALF_EVEN\<close>, \<open>InvalidOperation\<close> trapped,
  \<open>Inexact\<close> and \<open>Rounded\<close> not trapped. The exponent limits \<open>Emin\<close>/\<open>Emax\<close> (\<open>\<plusminus>999999\<close>) are not
  modelled.
\<close>

datatype decimal =
    Finite (dsign: bool) (coefficient: nat) (exponent: int)
  | Infinity bool
  | NaN bool bool nat  \<comment> \<open>sign, signalling, payload (0 for none)\<close>

definition prec :: nat where
  "prec = 28"

fun ndigits :: "nat \<Rightarrow> nat" where
  \<comment> \<open>\<open>len(self._int)\<close>: the number of decimal digits, 1 for zero\<close>
  "ndigits n = (if n < 10 then 1 else Suc (ndigits (n div 10)))"

declare ndigits.simps [simp del]

definition round_half_even :: "nat \<Rightarrow> nat \<Rightarrow> nat" where
  \<comment> \<open>the coefficient with its last \<open>k\<close> digits rounded away\<close>
  "round_half_even c k =
     (let p = 10 ^ k; q = c div p; r = c mod p
      in if 2 * r > p \<or> (2 * r = p \<and> odd q) then q + 1 else q)"

definition rescale :: "nat \<Rightarrow> int \<Rightarrow> int \<Rightarrow> nat" where
  \<comment> \<open>\<open>Decimal._rescale\<close>: the coefficient at the exponent \<open>target\<close>\<close>
  "rescale c e target =
     (if e \<ge> target then c * 10 ^ nat (e - target) else round_half_even c (nat (target - e)))"

definition fix_nan :: "decimal \<Rightarrow> decimal" where
  \<comment> \<open>\<open>Decimal._fix_nan\<close>: a payload keeps its last \<open>prec\<close> digits\<close>
  "fix_nan d = (case d of NaN sg sig p \<Rightarrow> NaN sg sig (p mod 10 ^ prec) | _ \<Rightarrow> d)"

definition dec_fix :: "bool \<Rightarrow> nat \<Rightarrow> int \<Rightarrow> decimal" where
  \<comment> \<open>\<open>Decimal._fix\<close> on a finite number: round to \<open>prec\<close> digits\<close>
  "dec_fix sg c e =
     (if ndigits c > prec then
        (let k = ndigits c - prec; q = round_half_even c k
         in if q \<ge> 10 ^ prec then Finite sg (q div 10) (e + int k + 1)
            else Finite sg q (e + int k))
      else Finite sg c e)"

definition invalid_operation :: string where
  \<comment> \<open>\<open>str(e)\<close> of the \<open>InvalidOperation\<close> that an operation signals\<close>
  "invalid_operation = ''[<class 'decimal.InvalidOperation'>]''"

definition conversion_syntax :: string where
  \<comment> \<open>\<open>str(e)\<close> of the \<open>InvalidOperation\<close> that \<open>Decimal(s)\<close> raises on a malformed string\<close>
  "conversion_syntax = ''[<class 'decimal.ConversionSyntax'>]''"

definition quantize2 :: "decimal \<Rightarrow> exn + decimal" where
  \<comment> \<open>\<open>d.quantize(Decimal("0.01"))\<close>\<close>
  "quantize2 d =
     (case d of
        NaN sg sig p \<Rightarrow>
          if sig then Inl (InvalidOperation invalid_operation)
          else Inr (fix_nan d)
      | Infinity sg \<Rightarrow> Inl (InvalidOperation invalid_operation)
      | Finite sg c e \<Rightarrow>
          if c = 0 then Inr (Finite sg 0 (- 2))
          else if int (ndigits c) + e - 1 - (- 2) + 1 > int prec
            then Inl (InvalidOperation invalid_operation)
          else if rescale c e (- 2) \<ge> 10 ^ prec
            then Inl (InvalidOperation invalid_operation)
          else Inr (Finite sg (rescale c e (- 2)) (- 2)))"

definition signed_value :: "bool \<Rightarrow> nat \<Rightarrow> int" where
  "signed_value sg c = (if sg then - int c else int c)"

definition dec_add :: "decimal \<Rightarrow> decimal \<Rightarrow> exn + decimal" where
  \<comment> \<open>\<open>a + b\<close>: the exact sum at the smaller exponent, rounded to the precision\<close>
  "dec_add a b =
     (case (a, b) of
        (NaN sa True pa, _) \<Rightarrow> Inl (InvalidOperation invalid_operation)
      | (_, NaN sb True pb) \<Rightarrow> Inl (InvalidOperation invalid_operation)
      | (NaN sa False pa, _) \<Rightarrow> Inr (fix_nan a)
      | (_, NaN sb False pb) \<Rightarrow> Inr (fix_nan b)
      | (Infinity sa, Infinity sb) \<Rightarrow>
          if sa = sb then Inr a else Inl (InvalidOperation invalid_operation)
      | (Infinity sa, _) \<Rightarrow> Inr a
      | (_, Infinity sb) \<Rightarrow> Inr b
      | (Finite sa ca ea, Finite sb cb eb) \<Rightarrow>
          (let e = min ea eb;
               r = signed_value sa ca * 10 ^ nat (ea - e) + signed_value sb cb * 10 ^ nat (eb - e)
           in if r = 0 then Inr (dec_fix (if ca = 0 \<and> cb = 0 then sa \<and> sb else False) 0 e)
              else Inr (dec_fix (r < 0) (nat \<bar>r\<bar>) e)))"

definition dec_ne_zero :: "decimal \<Rightarrow> bool" where
  \<comment> \<open>\<open>d != Decimal("0.00")\<close>; a quiet NaN differs from everything\<close>
  "dec_ne_zero d = (case d of Finite sg c e \<Rightarrow> c \<noteq> 0 | _ \<Rightarrow> True)"

definition dec_lt_zero :: "decimal \<Rightarrow> exn + bool" where
  \<comment> \<open>\<open>d < 0\<close>: an ordering comparison with a NaN signals \<open>InvalidOperation\<close>\<close>
  "dec_lt_zero d =
     (case d of Finite sg c e \<Rightarrow> Inr (sg \<and> c \<noteq> 0) | Infinity sg \<Rightarrow> Inr sg
      | NaN sg sig p \<Rightarrow> Inl (InvalidOperation invalid_operation))"

definition copy_negate :: "decimal \<Rightarrow> decimal" where
  \<comment> \<open>the same number with the sign flipped\<close>
  "copy_negate d = (case d of Finite sg c e \<Rightarrow> Finite (\<not> sg) c e | Infinity sg \<Rightarrow> Infinity (\<not> sg)
                    | NaN sg sig p \<Rightarrow> NaN (\<not> sg) sig p)"

definition dec_minus :: "decimal \<Rightarrow> exn + decimal" where
  \<comment> \<open>\<open>-d\<close> (\<open>Decimal.__neg__\<close>): a zero loses its sign, the result is rounded to the
      precision, a NaN is returned as it is\<close>
  "dec_minus d =
     (case d of
        NaN sg sig p \<Rightarrow> if sig then Inl (InvalidOperation invalid_operation) else Inr (fix_nan d)
      | Infinity sg \<Rightarrow> Inr (Infinity (\<not> sg))
      | Finite sg c e \<Rightarrow> if c = 0 then Inr (dec_fix False c e) else Inr (dec_fix (\<not> sg) c e))"

subsection \<open>\<open>Decimal(s)\<close>: the constructor from a string\<close>

definition parse_exponent :: "string \<Rightarrow> int option" where
  \<comment> \<open>\<open>(E[-+]?\d+)?\<close> up to the end of the string\<close>
  "parse_exponent r =
     (case r of
        [] \<Rightarrow> Some 0
      | c # t \<Rightarrow>
          if c \<noteq> CHR ''e'' then None
          else (let (neg, ds) = (case t of [] \<Rightarrow> (False, [])
                                   | x # u \<Rightarrow> if x = CHR ''-'' then (True, u)
                                             else if x = CHR ''+'' then (False, u) else (False, t))
                in if ds = [] \<or> \<not> list_all is_digit ds then None
                   else Some (if neg then - int (nat_of_digits ds) else int (nat_of_digits ds))))"

definition parse_number :: "bool \<Rightarrow> string \<Rightarrow> decimal option" where
  \<comment> \<open>\<open>(?=\d|\.\d)\d*(\.\d*)?(E[-+]?\d+)?\<close>\<close>
  "parse_number sg r =
     (let ip = takeWhile is_digit r; r1 = dropWhile is_digit r;
          (fp, r2) = (case r1 of [] \<Rightarrow> ([], [])
                       | c # t \<Rightarrow> if c = CHR ''.'' then (takeWhile is_digit t, dropWhile is_digit t)
                                 else ([], r1))
      in if ip = [] \<and> fp = [] then None
         else (case parse_exponent r2 of
                 None \<Rightarrow> None
               | Some ex \<Rightarrow> Some (Finite sg (nat_of_digits (ip @ fp)) (ex - int (length fp)))))"

definition parse_body :: "bool \<Rightarrow> string \<Rightarrow> decimal option" where
  "parse_body sg r =
     (if r = ''inf'' \<or> r = ''infinity'' then Some (Infinity sg)
      else if startswith r ''nan'' then
        (if list_all is_digit (drop 3 r) then Some (NaN sg False (nat_of_digits (drop 3 r))) else None)
      else if startswith r ''snan'' then
        (if list_all is_digit (drop 4 r) then Some (NaN sg True (nat_of_digits (drop 4 r))) else None)
      else parse_number sg r)"

definition Decimal :: "string \<Rightarrow> decimal option" where
  \<comment> \<open>\<open>None\<close> is \<open>InvalidOperation\<close> (\<open>ConversionSyntax\<close>). The string is stripped, underscores
      are dropped, and the syntax is matched without regard to case.\<close>
  "Decimal s =
     (let t = remove_char CHR ''_'' (strip s)
      in case t of
           [] \<Rightarrow> None
         | c # u \<Rightarrow> if c = CHR ''-'' then parse_body True (lower u)
                   else if c = CHR ''+'' then parse_body False (lower u)
                   else parse_body False (lower t))"

subsection \<open>\<open>str(d)\<close>\<close>

definition str_decimal :: "decimal \<Rightarrow> string" where
  \<comment> \<open>\<open>Decimal.__str__\<close>: scientific notation when the exponent is positive or the number
      has more than six leading zeros\<close>
  "str_decimal d =
     (case d of
        Infinity sg \<Rightarrow> (if sg then ''-'' else []) @ ''Infinity''
      | NaN sg sig p \<Rightarrow>
          (if sg then ''-'' else []) @ (if sig then ''sNaN'' else ''NaN'')
            @ (if p = 0 then [] else digits_of_nat p)
      | Finite sg c e \<Rightarrow>
          (let ds = digits_of_nat c;
               leftdigits = e + int (length ds);
               dotplace = (if e \<le> 0 \<and> leftdigits > - 6 then leftdigits else 1);
               intpart = (if dotplace \<le> 0 then ''0''
                          else if dotplace \<ge> int (length ds)
                            then ds @ replicate (nat (dotplace - int (length ds))) CHR ''0''
                          else take (nat dotplace) ds);
               fracpart = (if dotplace \<le> 0 then ''.'' @ replicate (nat (- dotplace)) CHR ''0'' @ ds
                           else if dotplace \<ge> int (length ds) then []
                           else ''.'' @ drop (nat dotplace) ds);
               ex = (if leftdigits = dotplace then []
                     else ''E'' @ (if leftdigits - dotplace < 0 then ''-'' else ''+'')
                            @ digits_of_nat (nat \<bar>leftdigits - dotplace\<bar>))
           in (if sg then ''-'' else []) @ intpart @ fracpart @ ex))"

section \<open>\<open>backend/services/import_service.py\<close>: the helpers\<close>

subsection \<open>\<open>_compute_hash\<close>\<close>

text \<open>
  A \<open>hashlib.sha256\<close> object is modelled by the bytes fed to it so far, and its digest by the
  free constructor \<open>SHA256\<close> over them: two digests are equal exactly when the hashed bytes
  are, which is the collision-freeness the import layer relies on.
\<close>

type_synonym bytes = string

datatype digest = SHA256 bytes

definition sha256_new :: bytes where
  "sha256_new = []"

definition sha256_update :: "bytes \<Rightarrow> bytes \<Rightarrow> bytes" where
  "sha256_update h bs = h @ bs"

definition hexdigest :: "bytes \<Rightarrow> digest" where
  "hexdigest h = SHA256 h"

definition rules_marker :: bytes where
  "rules_marker = ''::RULES::''"

definition compute_hash :: "bytes \<Rightarrow> bytes option \<Rightarrow> digest" where
  "compute_hash file_bytes rules_bytes =
     (let h = sha256_update sha256_new file_bytes;
          h' = (case rules_bytes of
                  None \<Rightarrow> h
                | Some r \<Rightarrow> if r \<noteq> [] then sha256_update (sha256_update h rules_marker) r else h)
      in hexdigest h')"

subsection \<open>\<open>_parse_amount\<close>\<close>

definition parse_amount :: "string option \<Rightarrow> exn + decimal" where
  "parse_amount so =
     (case so of
        None \<Rightarrow> Inl (ValueError ''Amount missing'')
      | Some s0 \<Rightarrow>
          (let s1 = strip s0;
               s2 = remove_char CHR '','' s1;
               s3 = (if startswith s2 ''('' \<and> endswith s2 '')'' then CHR ''-'' # butlast (tl s2) else s2)
           in case Decimal s3 of
                None \<Rightarrow> Inl (InvalidOperation conversion_syntax)
              | Some d \<Rightarrow> Inr d))"

subsection \<open>\<open>_parse_date\<close>\<close>

text \<open>
  A date is modelled by its ordinal (\<open>date.toordinal()\<close>), which orders dates as Python does.
  \<open>datetime.strptime\<close> and \<open>datetime.fromisoformat\<close> are the library's: the model takes them
  as parameters, \<open>None\<close> standing for the exception they raise on a string they reject.
\<close>

type_synonym date = int

definition date_formats :: "string list" where
  "date_formats = [''%Y-%m-%d'', ''%d/%m/%Y'', ''%m/%d/%Y'', ''%d-%m-%Y'']"

fun try_formats :: "(string \<Rightarrow> string \<Rightarrow> date option) \<Rightarrow> string \<Rightarrow> string list \<Rightarrow> date option" where
  "try_formats strptime s [] = None"
| "try_formats strptime s (f # fs) =
     (case strptime s f of Some d \<Rightarrow> Some d | None \<Rightarrow> try_formats strptime s fs)"

definition parse_date ::
  "(string \<Rightarrow> string \<Rightarrow> date option) \<Rightarrow> (string \<Rightarrow> date option) \<Rightarrow> string option \<Rightarrow> date option" where
  "parse_date strptime fromisoformat so =
     (let s = strip (case so of None \<Rightarrow> [] | Some x \<Rightarrow> x)
      in if s = [] then None
         else (case try_formats strptime s date_formats of
                 Some d \<Rightarrow> Some d
               | None \<Rightarrow> fromisoformat s))"

subsection \<open>\<open>_match_rule\<close>\<close>

text \<open>
  A rule is the dict the importer reads: \<open>matcher_type\<close> and \<open>matcher\<close> may be absent
  (\<open>None\<close>). The texts are \<open>ustr\<close>. Three library functions are parameters of the model:
  \<open>str.lower\<close> and \<open>str.strip\<close> (the record \<open>str_library\<close>), and
  \<open>re.search(pattern, text, flags=re.IGNORECASE)\<close>, whose outcome is a match, no match,
  the exception \<open>re.error\<close> that \<open>_match_rule\<close> catches, or any other exception
  (\<open>OverflowError\<close>, \<open>RecursionError\<close>, ...), which \<open>_match_rule\<close> does not catch.
\<close>

record rule =
  matcher :: "ustr option"
  matcher_type :: "ustr option"
  category :: "ustr option"
  rule_necessary :: bool

record str_library =
  py_lower :: "ustr \<Rightarrow> ustr"
  py_strip :: "ustr \<Rightarrow> ustr"

datatype re_outcome = Matched | NotMatched | ReError | Raised exn

type_synonym re_engine = "ustr \<Rightarrow> ustr \<Rightarrow> re_outcome"

definition comma :: nat where
  "comma = of_char CHR '',''"

definition keyword_list :: "str_library \<Rightarrow> ustr \<Rightarrow> ustr list" where
  \<comment> \<open>\<open>[k.strip() for k in matcher.split(",") if k.strip()]\<close>\<close>
  "keyword_list lib m = map (py_strip lib) (filter (\<lambda>k. py_strip lib k \<noteq> []) (split_on comma m))"

fun keyword_hit :: "str_library \<Rightarrow> ustr \<Rightarrow> ustr list \<Rightarrow> bool" where
  \<comment> \<open>the inner loop: \<open>for kw in ...: if kw.lower() in txt: return r\<close>\<close>
  "keyword_hit lib txt [] = False"
| "keyword_hit lib txt (kw # kws) =
     (if contains txt (py_lower lib kw) then True else keyword_hit lib txt kws)"

fun match_loop :: "str_library \<Rightarrow> re_engine \<Rightarrow> ustr \<Rightarrow> ustr \<Rightarrow> rule list \<Rightarrow> exn + rule option" where
  \<comment> \<open>the loop \<open>for r in rules_list\<close>; \<open>txt\<close> is the lowered text, \<open>text\<close> the text as given\<close>
  "match_loop lib re_search txt text [] = Inr None"
| "match_loop lib re_search txt text (r # rs) =
     (let mt = (case matcher_type r of None \<Rightarrow> ustr ''keyword'' | Some t \<Rightarrow> t)
      in case matcher r of
           None \<Rightarrow> match_loop lib re_search txt text rs
         | Some m \<Rightarrow>
             if m = [] then match_loop lib re_search txt text rs
             else if mt = ustr ''keyword'' then
               (if keyword_hit lib txt (keyword_list lib m) then Inr (Some r)
                else match_loop lib re_search txt text rs)
             else if mt = ustr ''regex'' then
               (case re_search m text of
                  Matched \<Rightarrow> Inr (Some r)
                | NotMatched \<Rightarrow> match_loop lib re_search txt text rs
                | ReError \<Rightarrow> match_loop lib re_search txt text rs
                | Raised e \<Rightarrow> Inl e)
             else match_loop lib re_search txt text rs)"

definition match_rule :: "str_library \<Rightarrow> re_engine \<Rightarrow> ustr \<Rightarrow> rule list \<Rightarrow> exn + rule option" where
  \<comment> \<open>\<open>_match_rule(text, rules_list)\<close>: \<open>Inr None\<close> is the return value \<open>None\<close>, \<open>Inl e\<close> an
      exception of \<open>re.search\<close> that propagates\<close>
  "match_rule lib re_search text rules_list =
     match_loop lib re_search (py_lower lib text) text rules_list"

definition ascii_library :: str_library where
  \<comment> \<open>\<open>str.lower\<close> and \<open>str.strip\<close> as they act on ASCII text, for the examples below, which
      use ASCII text only\<close>
  "ascii_library =
     \<lparr>py_lower = map (\<lambda>c. if 65 \<le> c \<and> c \<le> 90 then c + 32 else c),
      py_strip = (\<lambda>s. rev (dropWhile (\<lambda>c. c = 32 \<or> (9 \<le> c \<and> c \<le> 13) \<or> (28 \<le> c \<and> c \<le> 31))
                       (rev (dropWhile (\<lambda>c. c = 32 \<or> (9 \<le> c \<and> c \<le> 13) \<or> (28 \<le> c \<and> c \<le> 31)) s))))\<rparr>"

definition literal_search :: re_engine where
  \<comment> \<open>\<open>re.search\<close> with \<open>re.IGNORECASE\<close> on the patterns the examples below use: a pattern of
      ASCII letters, digits and spaces matches as literal text, without regard to case (the
      empty pattern matches every text); the pattern \<open>(\<close> is rejected with \<open>re.error\<close>
      (missing closing parenthesis); the pattern \<open>a{4294967296}\<close> raises \<open>OverflowError\<close>.
      The examples use no other pattern, and ASCII texts only; on any other pattern this
      stand-in answers \<open>re.error\<close>.\<close>
  "literal_search p t =
     (if p = ustr ''a{4294967296}'' then Raised (OverflowError ''the repetition number is too large'')
      else if list_all (\<lambda>c. c \<in> set (ustr (upper_letters @ lower_letters @ digit_chars @ '' ''))) p
      then (if contains (py_lower ascii_library t) (py_lower ascii_library p) then Matched
            else NotMatched)
      else ReError)"

subsection \<open>\<open>detect_type_from_name\<close>\<close>

definition detect_type_from_name :: "string \<Rightarrow> string" where
  "detect_type_from_name name =
     (let n = lower name
      in if contains n ''asset'' then ''ASSET''
         else if contains n ''liabil'' then ''LIABILITY''
         else if contains n ''income'' then ''INCOME''
         else if contains n ''expense'' then ''EXPENSE''
         else ''ASSET'')"

section \<open>The database of \<open>backend/ledger/models.py\<close>\<close>

text \<open>
  Each model is a table: a list of rows in primary-key order. An \<open>AutoField\<close> key is drawn
  from a counter kept with the table. A \<open>Split\<close>'s amount is a \<open>FloatField\<close>; the model keeps
  the \<open>Decimal\<close> that the repository passes to \<open>float\<close>.
\<close>

record ledger_row =
  ledgerID :: int
  username :: string

record account_row =
  accountID :: int
  acc_ledger :: int
  acc_name :: string
  account_type :: string
  acc_parent :: "int option"
  is_active :: bool

record transaction_row =
  transactionID :: int
  tx_ledger :: int
  tx_date :: date
  tx_desc :: string
  tx_necessary :: bool

record split_row =
  split_id :: int
  split_transaction :: int
  split_account :: int
  split_amount :: decimal

record tag_row =
  tag_id :: int
  tag_name :: string

record import_record =
  import_id :: int
  file_hash :: digest
  filename :: "string option"
  imported_count :: int
  meta_tx_ids :: "int list"
  meta_errors :: "string list"

record db =
  ledgers :: "ledger_row list"
  accounts :: "account_row list"
  next_account :: int
  transactions :: "transaction_row list"
  next_transaction :: int
  splits :: "split_row list"
  next_split :: int
  tags :: "tag_row list"
  next_tag :: int
  transaction_tags :: "(int \<times> int) list"  \<comment> \<open>the many-to-many table: transaction, tag\<close>
  rules :: "rule list"  \<comment> \<open>the \<open>Rule\<close> table in \<open>id\<close> order\<close>
  import_records :: "import_record list"
  next_import :: int

definition empty_db :: db where
  "empty_db = \<lparr>ledgers = [], accounts = [], next_account = 1, transactions = [],
     next_transaction = 1, splits = [], next_split = 1, tags = [], next_tag = 1,
     transaction_tags = [], rules = [], import_records = [], next_import = 1\<rparr>"

definition ledger_get_or_create :: "int \<Rightarrow> string \<Rightarrow> db \<Rightarrow> db" where
  \<comment> \<open>\<open>Ledger.objects.get_or_create(pk=ledger_id, defaults={'username': name})\<close>\<close>
  "ledger_get_or_create lid name d =
     (if list_ex (\<lambda>l. ledgerID l = lid) (ledgers d) then d
      else d\<lparr>ledgers := ledgers d @ [\<lparr>ledgerID = lid, username = name\<rparr>]\<rparr>)"

section \<open>\<open>backend/ledger/repos.py\<close>: \<open>DjangoAccountsRepo\<close>\<close>

definition accounts_create ::
  "string \<Rightarrow> string \<Rightarrow> int option \<Rightarrow> bool \<Rightarrow> int \<Rightarrow> db \<Rightarrow> account_row \<times> db" where
  \<comment> \<open>\<open>DjangoAccountsRepo.create\<close>: no check of any kind precedes the insert\<close>
  "accounts_create name atype parent active lid d =
     (let parent_obj = (case parent of
                          None \<Rightarrow> None
                        | Some p \<Rightarrow> if p \<noteq> 0
                            then map_option accountID (find (\<lambda>a. accountID a = p) (accounts d))
                            else None);
          d1 = ledger_get_or_create lid ''default'' d;
          acc = \<lparr>accountID = next_account d1, acc_ledger = lid, acc_name = name,
                 account_type = atype, acc_parent = parent_obj, is_active = active\<rparr>
      in (acc, d1\<lparr>accounts := accounts d1 @ [acc], next_account := next_account d1 + 1\<rparr>))"

definition accounts_get :: "int \<Rightarrow> db \<Rightarrow> account_row option" where
  "accounts_get pk d = find (\<lambda>a. accountID a = pk) (accounts d)"

definition get_by_name :: "string \<Rightarrow> db \<Rightarrow> account_row option" where
  \<comment> \<open>\<open>Account.objects.filter(name=name).first()\<close>: the first row in key order, whatever
      its ledger\<close>
  "get_by_name name d = find (\<lambda>a. acc_name a = name) (accounts d)"

definition ensure_account :: "string \<Rightarrow> string \<Rightarrow> int \<Rightarrow> db \<Rightarrow> account_row \<times> db" where
  \<comment> \<open>\<open>_ensure_account\<close> of \<open>import_service.py\<close>\<close>
  "ensure_account name fallback_type lid d =
     (case get_by_name name d of
        Some acc \<Rightarrow>
          if acc_ledger acc = lid then (acc, d)
          else accounts_create name fallback_type None True lid d
      | None \<Rightarrow> accounts_create name fallback_type None True lid d)"

section \<open>\<open>backend/ledger/repos.py\<close>: \<open>DjangoTransactionsRepo\<close>\<close>

text \<open>
  A split handed to \<open>create\<close> is a dict with the keys \<open>amount\<close>, \<open>account_id\<close> and
  \<open>account_name\<close>, each of which may be absent (\<open>None\<close>). An amount is a string, an \<open>int\<close>
  or a \<open>Decimal\<close>; \<open>str(raw)\<close> is what \<open>_normalize_amount\<close> reads. (A \<open>float\<close> amount is
  outside the model.) The field \<open>dict_repr\<close> is the dict as Python prints it (\<open>str(s)\<close>),
  which the message of a missing amount quotes.
\<close>

datatype raw = RawStr string | RawInt int | RawDec decimal

fun py_str :: "raw \<Rightarrow> string" where
  "py_str (RawStr s) = s"
| "py_str (RawInt i) = str_int i"
| "py_str (RawDec d) = str_decimal d"

record split_in =
  amount :: "raw option"
  account_id :: "int option"
  account_name :: "string option"
  dict_repr :: string

definition quote :: string where
  "quote = [CHR 0x27]"

definition django_normalize_amount :: "raw \<Rightarrow> exn + decimal" where
  \<comment> \<open>\<open>DjangoTransactionsRepo._normalize_amount\<close>: only the constructor sits in the \<open>try\<close>;
      an \<open>InvalidOperation\<close> of \<open>quantize\<close> propagates as it is\<close>
  "django_normalize_amount r =
     (case Decimal (py_str r) of
        None \<Rightarrow> Inl (ValidationError (''Invalid amount value: '' @ py_str r))
      | Some d \<Rightarrow> quantize2 d)"

fun normalize_loop ::
  "split_in list \<Rightarrow> (split_in \<times> decimal) list \<Rightarrow> decimal
     \<Rightarrow> exn + ((split_in \<times> decimal) list \<times> decimal)" where
  \<comment> \<open>lines 136 to 141: \<open>decimal_splits\<close> and \<open>total\<close> are the accumulators\<close>
  "normalize_loop [] decimal_splits tot = Inr (decimal_splits, tot)"
| "normalize_loop (s # ss) decimal_splits tot =
     (case amount s of
        None \<Rightarrow> Inl (ValidationError
                  (''Missing '' @ quote @ ''amount'' @ quote @ '' in split: '' @ dict_repr s))
      | Some r \<Rightarrow>
          (case django_normalize_amount r of
             Inl e \<Rightarrow> Inl e
           | Inr a \<Rightarrow>
               (case dec_add tot a of
                  Inl e \<Rightarrow> Inl e
                | Inr tot' \<Rightarrow> normalize_loop ss (decimal_splits @ [(s, a)]) tot')))"

definition zero_00 :: decimal where
  \<comment> \<open>\<open>Decimal("0.00")\<close>\<close>
  "zero_00 = Finite False 0 (- 2)"

definition django_validate :: "split_in list \<Rightarrow> exn + (split_in \<times> decimal) list" where
  \<comment> \<open>lines 130 to 145: everything \<open>create\<close> checks before it opens the transaction\<close>
  "django_validate splits_in =
     (if splits_in = [] then Inl (ValidationError ''Transaction must have at least one split.'')
      else case normalize_loop splits_in [] zero_00 of
             Inl e \<Rightarrow> Inl e
           | Inr (decimal_splits, tot) \<Rightarrow>
               (case quantize2 tot of
                  Inl e \<Rightarrow> Inl e
                | Inr tot' \<Rightarrow>
                    if dec_ne_zero tot'
                    then Inl (ValidationError
                           (''Transaction not balanced: splits sum to '' @ str_decimal tot'))
                    else Inr decimal_splits))"

definition resolve_account :: "split_in \<Rightarrow> db \<Rightarrow> exn + account_row" where
  \<comment> \<open>lines 162 to 173\<close>
  "resolve_account s d =
     (case account_id s of
        Some i \<Rightarrow>
          (case accounts_get i d of
             None \<Rightarrow> Inl (ValidationError (''Account id '' @ str_int i @ '' not found''))
           | Some a \<Rightarrow> Inr a)
      | None \<Rightarrow>
          (case account_name s of
             Some n \<Rightarrow>
               (case get_by_name n d of
                  None \<Rightarrow> Inl (ValidationError
                            (''Account name '' @ quote @ n @ quote @ '' not found''))
                | Some a \<Rightarrow> Inr a)
           | None \<Rightarrow> Inl (ValidationError
                       (''Each split requires '' @ quote @ ''account_id'' @ quote @ '' or ''
                          @ quote @ ''account_name'' @ quote))))"

fun create_splits :: "int \<Rightarrow> (split_in \<times> decimal) list \<Rightarrow> db \<Rightarrow> (exn + unit) \<times> db" where
  \<comment> \<open>lines 161 to 176: the rows written before a failing split stay in the working state\<close>
  "create_splits tx [] d = (Inr (), d)"
| "create_splits tx ((s, a) # rest) d =
     (case resolve_account s d of
        Inl e \<Rightarrow> (Inl e, d)
      | Inr acc \<Rightarrow>
          create_splits tx rest
            (d\<lparr>splits := splits d @ [\<lparr>split_id = next_split d, split_transaction = tx,
                                        split_account = accountID acc, split_amount = a\<rparr>],
               next_split := next_split d + 1\<rparr>))"

definition tag_get_or_create :: "string \<Rightarrow> db \<Rightarrow> tag_row \<times> db" where
  \<comment> \<open>\<open>Tag.objects.get_or_create(name=t)\<close>\<close>
  "tag_get_or_create t d =
     (case find (\<lambda>g. tag_name g = t) (tags d) of
        Some g \<Rightarrow> (g, d)
      | None \<Rightarrow>
          (let g = \<lparr>tag_id = next_tag d, tag_name = t\<rparr>
           in (g, d\<lparr>tags := tags d @ [g], next_tag := next_tag d + 1\<rparr>)))"

fun add_tags :: "int \<Rightarrow> string list \<Rightarrow> db \<Rightarrow> db" where
  \<comment> \<open>lines 179 to 182; \<open>tx.tags.add\<close> adds a pair once\<close>
  "add_tags tx [] d = d"
| "add_tags tx (t # ts) d =
     (let (g, d1) = tag_get_or_create t d;
          d2 = (if (tx, tag_id g) \<in> set (transaction_tags d1) then d1
                else d1\<lparr>transaction_tags := transaction_tags d1 @ [(tx, tag_id g)]\<rparr>)
      in add_tags tx ts d2)"

definition create_body ::
  "int \<Rightarrow> date option \<Rightarrow> string \<Rightarrow> (split_in \<times> decimal) list \<Rightarrow> string list \<Rightarrow> bool \<Rightarrow> db
     \<Rightarrow> (exn + transaction_row) \<times> db" where
  \<comment> \<open>lines 148 to 185, the body of \<open>with db_transaction.atomic()\<close>. A missing date violates
      the column's \<open>NOT NULL\<close>.\<close>
  "create_body lid dt description decimal_splits tag_names necessary d =
     (case find (\<lambda>l. ledgerID l = lid) (ledgers d) of
        None \<Rightarrow> (Inl (ValidationError (''Ledger id '' @ str_int lid @ '' not found'')), d)
      | Some ledger \<Rightarrow>
          (case dt of
             None \<Rightarrow> (Inl (IntegrityError ''NOT NULL constraint failed: ledger_transaction.date''), d)
           | Some day \<Rightarrow>
               (let tx = \<lparr>transactionID = next_transaction d, tx_ledger = lid, tx_date = day,
                           tx_desc = description, tx_necessary = necessary\<rparr>;
                    d1 = d\<lparr>transactions := transactions d @ [tx],
                           next_transaction := next_transaction d + 1\<rparr>
                in case create_splits (transactionID tx) decimal_splits d1 of
                     (Inl e, d2) \<Rightarrow> (Inl e, d2)
                   | (Inr u, d2) \<Rightarrow> (Inr tx, add_tags (transactionID tx) tag_names d2))))"

definition atomic :: "(db \<Rightarrow> (exn + 'a) \<times> db) \<Rightarrow> db \<Rightarrow> (exn + 'a) \<times> db" where
  \<comment> \<open>\<open>with db_transaction.atomic()\<close>: an exception leaving the block rolls every write of
      the block back\<close>
  "atomic body d = (case body d of (Inl e, d') \<Rightarrow> (Inl e, d) | (Inr v, d') \<Rightarrow> (Inr v, d'))"

definition django_create ::
  "int \<Rightarrow> date option \<Rightarrow> string \<Rightarrow> split_in list \<Rightarrow> string list \<Rightarrow> bool \<Rightarrow> db
     \<Rightarrow> (exn + transaction_row) \<times> db" where
  \<comment> \<open>\<open>DjangoTransactionsRepo.create\<close>; \<open>tags=None\<close> behaves as the empty list\<close>
  "django_create lid dt description splits_in tag_names necessary d =
     (case django_validate splits_in of
        Inl e \<Rightarrow> (Inl e, d)
      | Inr decimal_splits \<Rightarrow>
          atomic (create_body lid dt description decimal_splits tag_names necessary) d)"

record list_filters =
  date_from :: "date option"
  date_to :: "date option"
  filter_account_id :: "int option"
  filter_tag :: "string option"

definition no_filters :: list_filters where
  "no_filters = \<lparr>date_from = None, date_to = None, filter_account_id = None, filter_tag = None\<rparr>"

definition django_list ::
  "(transaction_row list \<Rightarrow> transaction_row list) \<Rightarrow> list_filters \<Rightarrow> db \<Rightarrow> transaction_row list" where
  \<comment> \<open>\<open>DjangoTransactionsRepo.list\<close>. \<open>order_by("-date")\<close> is the database's: SQL leaves the
      order among rows of equal date open, so the ordering is the parameter \<open>order_by_date\<close>.
      A filter applies when its value is truthy (\<open>0\<close> and \<open>""\<close> are not).\<close>
  "django_list order_by_date f d =
     (let qs = transactions d;
          qs1 = (case date_from f of None \<Rightarrow> qs | Some a \<Rightarrow> filter (\<lambda>t. tx_date t \<ge> a) qs);
          qs2 = (case date_to f of None \<Rightarrow> qs1 | Some b \<Rightarrow> filter (\<lambda>t. tx_date t \<le> b) qs1);
          qs3 = (case filter_account_id f of
                   None \<Rightarrow> qs2
                 | Some i \<Rightarrow>
                     if i = 0 then qs2
                     else filter (\<lambda>t. list_ex (\<lambda>s. split_transaction s = transactionID t \<and>
                                                  split_account s = i) (splits d)) qs2);
          qs4 = (case filter_tag f of
                   None \<Rightarrow> qs3
                 | Some g \<Rightarrow>
                     if g = [] then qs3
                     else filter (\<lambda>t. list_ex (\<lambda>r. tag_name r = g \<and>
                                    (transactionID t, tag_id r) \<in> set (transaction_tags d)) (tags d)) qs3)
      in order_by_date qs4)"

section \<open>\<open>backend/ledger/repos.py\<close>: the in-memory repositories\<close>

record account_stub =
  stub_id :: int
  stub_name :: string
  stub_type :: string
  stub_ledger_id :: int

record split_stub =
  stub_account_id :: int
  stub_amount :: decimal

record transaction_stub =
  ts_id :: int
  ts_date :: date
  ts_description :: string
  ts_necessary :: bool
  ts_tags :: "string list"
  ts_splits :: "split_stub list"
  ts_ledger_id :: int

record mem =
  mem_accounts :: "account_stub list"  \<comment> \<open>the dict's values in insertion order\<close>
  mem_next_account :: int
  mem_transactions :: "transaction_stub list"
  mem_next_transaction :: int

definition empty_mem :: mem where
  "empty_mem = \<lparr>mem_accounts = [], mem_next_account = 1, mem_transactions = [],
                 mem_next_transaction = 1\<rparr>"

definition inmemory_accounts_create :: "string \<Rightarrow> string \<Rightarrow> int \<Rightarrow> mem \<Rightarrow> account_stub \<times> mem" where
  "inmemory_accounts_create name atype lid m =
     (let obj = \<lparr>stub_id = mem_next_account m, stub_name = name, stub_type = atype,
                 stub_ledger_id = lid\<rparr>
      in (obj, m\<lparr>mem_accounts := mem_accounts m @ [obj], mem_next_account := mem_next_account m + 1\<rparr>))"

definition inmemory_get_by_name :: "string \<Rightarrow> mem \<Rightarrow> account_stub option" where
  "inmemory_get_by_name name m = find (\<lambda>a. stub_name a = name) (mem_accounts m)"

definition inmemory_normalize_amount :: "raw \<Rightarrow> exn + decimal" where
  \<comment> \<open>\<open>InMemoryTransactionsRepo._normalize_amount\<close>: here \<open>quantize\<close> sits in the \<open>try\<close> too\<close>
  "inmemory_normalize_amount r =
     (case Decimal (py_str r) of
        None \<Rightarrow> Inl (ValidationError (''Invalid amount: '' @ py_str r))
      | Some d \<Rightarrow>
          (case quantize2 d of
             Inl e \<Rightarrow> Inl (ValidationError (''Invalid amount: '' @ py_str r))
           | Inr q \<Rightarrow> Inr q))"

fun inmemory_loop ::
  "split_in list \<Rightarrow> split_stub list \<Rightarrow> decimal \<Rightarrow> mem \<Rightarrow> exn + (split_stub list \<times> decimal)" where
  \<comment> \<open>lines 293 to 309: the account is resolved inside the loop, before the balance check;
      an \<open>account_id\<close> is taken as given, without a lookup\<close>
  "inmemory_loop [] decimal_splits tot m = Inr (decimal_splits, tot)"
| "inmemory_loop (s # ss) decimal_splits tot m =
     (case amount s of
        None \<Rightarrow> Inl (ValidationError ''Missing amount in split'')
      | Some r \<Rightarrow>
          (case inmemory_normalize_amount r of
             Inl e \<Rightarrow> Inl e
           | Inr amt \<Rightarrow>
               (case (case account_id s of
                        Some i \<Rightarrow> Inr i
                      | None \<Rightarrow>
                          (case account_name s of
                             Some n \<Rightarrow>
                               (case inmemory_get_by_name n m of
                                  None \<Rightarrow> Inl (ValidationError
                                            (''Account name '' @ quote @ n @ quote @ '' not found''))
                                | Some acc \<Rightarrow> Inr (stub_id acc))
                           | None \<Rightarrow> Inl (ValidationError
                                       (''Each split needs '' @ quote @ ''account_id'' @ quote
                                          @ '' or '' @ quote @ ''account_name'' @ quote)))) of
                  Inl e \<Rightarrow> Inl e
                | Inr i \<Rightarrow>
                    (case dec_add tot amt of
                       Inl e \<Rightarrow> Inl e
                     | Inr tot' \<Rightarrow>
                         inmemory_loop ss
                           (decimal_splits @ [\<lparr>stub_account_id = i, stub_amount = amt\<rparr>]) tot' m))))"

definition inmemory_create ::
  "int \<Rightarrow> date \<Rightarrow> string \<Rightarrow> split_in list \<Rightarrow> string list \<Rightarrow> bool \<Rightarrow> mem
     \<Rightarrow> (exn + transaction_stub) \<times> mem" where
  \<comment> \<open>\<open>InMemoryTransactionsRepo.create\<close>\<close>
  "inmemory_create lid dt description splits_in tag_names necessary m =
     (if splits_in = [] then (Inl (ValidationError ''Transaction must have splits''), m)
      else case inmemory_loop splits_in [] zero_00 m of
             Inl e \<Rightarrow> (Inl e, m)
           | Inr (decimal_splits, tot) \<Rightarrow>
               (case quantize2 tot of
                  Inl e \<Rightarrow> (Inl e, m)
                | Inr tot' \<Rightarrow>
                    if dec_ne_zero tot'
                    then (Inl (ValidationError
                            (''Transaction not balanced: sum='' @ str_decimal tot')), m)
                    else (let tx = \<lparr>ts_id = mem_next_transaction m, ts_date = dt,
                                     ts_description = description, ts_necessary = necessary,
                                     ts_tags = tag_names, ts_splits = decimal_splits,
                                     ts_ledger_id = lid\<rparr>
                          in (Inr tx, m\<lparr>mem_transactions := mem_transactions m @ [tx],
                                        mem_next_transaction := mem_next_transaction m + 1\<rparr>))))"

definition sorted_reverse :: "('a \<Rightarrow> 'k::linorder) \<Rightarrow> 'a list \<Rightarrow> 'a list" where
  \<comment> \<open>\<open>sorted(xs, key=k, reverse=True)\<close>: a stable sort; elements of equal key keep their
      order\<close>
  "sorted_reverse k xs = rev (sort_key k (rev xs))"

definition inmemory_list :: "list_filters \<Rightarrow> mem \<Rightarrow> transaction_stub list" where
  \<comment> \<open>\<open>InMemoryTransactionsRepo.list\<close>\<close>
  "inmemory_list f m =
     (let results = mem_transactions m;
          r1 = (case date_from f of None \<Rightarrow> results | Some a \<Rightarrow> filter (\<lambda>r. ts_date r \<ge> a) results);
          r2 = (case date_to f of None \<Rightarrow> r1 | Some b \<Rightarrow> filter (\<lambda>r. ts_date r \<le> b) r1);
          r3 = (case filter_account_id f of
                  None \<Rightarrow> r2
                | Some i \<Rightarrow>
                    if i = 0 then r2
                    else filter (\<lambda>r. list_ex (\<lambda>s. stub_account_id s = i) (ts_splits r)) r2);
          r4 = (case filter_tag f of
                  None \<Rightarrow> r3
                | Some g \<Rightarrow> if g = [] then r3 else filter (\<lambda>r. g \<in> set (ts_tags r)) r3)
      in sorted_reverse ts_date r4)"

section \<open>The claims' own notions\<close>

subsection \<open>Rule matching\<close>

definition rule_kind :: "rule \<Rightarrow> ustr" where
  \<comment> \<open>a rule without a \<open>matcher_type\<close> is a keyword rule\<close>
  "rule_kind r = (case matcher_type r of None \<Rightarrow> ustr ''keyword'' | Some t \<Rightarrow> t)"

definition keyword_found :: "str_library \<Rightarrow> ustr \<Rightarrow> ustr \<Rightarrow> bool" where
  \<comment> \<open>some comma-separated keyword of \<open>m\<close> occurs in the text, both lowered\<close>
  "keyword_found lib txt m =
     list_ex (\<lambda>kw. contains (py_lower lib txt) (py_lower lib kw)) (keyword_list lib m)"

definition claimed_rule_matches :: "str_library \<Rightarrow> re_engine \<Rightarrow> ustr \<Rightarrow> rule \<Rightarrow> bool" where
  \<comment> \<open>the predicate as the specification words it: a keyword rule matches when any of its
      keywords occurs in the text without regard to case, a regex rule when its pattern
      matches\<close>
  "claimed_rule_matches lib re_search txt r =
     (case matcher r of
        None \<Rightarrow> False
      | Some m \<Rightarrow>
          if rule_kind r = ustr ''keyword'' then keyword_found lib txt m
          else if rule_kind r = ustr ''regex'' then re_search m txt = Matched
          else False)"

definition rule_outcome :: "str_library \<Rightarrow> re_engine \<Rightarrow> ustr \<Rightarrow> rule \<Rightarrow> re_outcome" where
  \<comment> \<open>what one rule does to the search: it matches, it is passed over, or its
      \<open>re.search\<close> raises an exception other than \<open>re.error\<close>. A rule with no matcher or an
      empty one is passed over, and so is a regex rule whose pattern \<open>re\<close> rejects.\<close>
  "rule_outcome lib re_search txt r =
     (case matcher r of
        None \<Rightarrow> NotMatched
      | Some m \<Rightarrow>
          if m = [] then NotMatched
          else if rule_kind r = ustr ''keyword''
            then (if keyword_found lib txt m then Matched else NotMatched)
          else if rule_kind r = ustr ''regex''
            then (case re_search m txt of ReError \<Rightarrow> NotMatched | out \<Rightarrow> out)
          else NotMatched)"

definition food_rule :: rule where
  "food_rule = \<lparr>matcher = Some (ustr ''grocery, supermarket''), matcher_type = Some (ustr ''keyword''),
                 category = Some (ustr ''Food''), rule_necessary = True\<rparr>"

definition bad_regex_rule :: rule where
  "bad_regex_rule = \<lparr>matcher = Some (ustr ''(''), matcher_type = Some (ustr ''regex''),
                      category = Some (ustr ''Broken''), rule_necessary = False\<rparr>"

definition empty_regex_rule :: rule where
  "empty_regex_rule = \<lparr>matcher = Some [], matcher_type = Some (ustr ''regex''),
                        category = Some (ustr ''All''), rule_necessary = False\<rparr>"

definition fuel_rule :: rule where
  "fuel_rule = \<lparr>matcher = Some (ustr ''shell''), matcher_type = Some (ustr ''regex''),
                 category = Some (ustr ''Fuel''), rule_necessary = False\<rparr>"

definition overflow_rule :: rule where
  "overflow_rule = \<lparr>matcher = Some (ustr ''a{4294967296}''), matcher_type = Some (ustr ''regex''),
                     category = Some (ustr ''Huge''), rule_necessary = False\<rparr>"

subsection \<open>Account uniqueness\<close>

definition unique_accounts :: "db \<Rightarrow> bool" where
  \<comment> \<open>no two accounts share the same (ledger, name) pair\<close>
  "unique_accounts d = distinct (map (\<lambda>a. (acc_ledger a, acc_name a)) (accounts d))"

definition single_ledger :: "int \<Rightarrow> db \<Rightarrow> bool" where
  \<comment> \<open>every account of the store belongs to the ledger \<open>lid\<close>\<close>
  "single_ledger lid d = list_all (\<lambda>a. acc_ledger a = lid) (accounts d)"

definition bank1 :: account_row where
  "bank1 = \<lparr>accountID = 1, acc_ledger = 1, acc_name = ''ASSET:Bank'', account_type = ''ASSET'',
             acc_parent = None, is_active = True\<rparr>"

definition db_bank1 :: db where
  \<comment> \<open>a store with the ledger 1 and its bank account\<close>
  "db_bank1 = empty_db\<lparr>ledgers := [\<lparr>ledgerID = 1, username = ''default''\<rparr>],
                       accounts := [bank1], next_account := 2\<rparr>"

subsection \<open>Balanced splits\<close>

definition normalized :: "(raw \<Rightarrow> exn + decimal) \<Rightarrow> split_in \<Rightarrow> decimal option" where
  \<comment> \<open>the normalized amount of a split, when it has an amount and \<open>norm\<close> accepts it\<close>
  "normalized norm s =
     (case amount s of None \<Rightarrow> None
      | Some r \<Rightarrow> (case norm r of Inl e \<Rightarrow> None | Inr a \<Rightarrow> Some a))"

definition is_finite :: "decimal \<Rightarrow> bool" where
  "is_finite d = (case d of Finite sg c e \<Rightarrow> True | _ \<Rightarrow> False)"

definition is_cents :: "decimal \<Rightarrow> bool" where
  \<comment> \<open>a fixed-point number with exactly two decimal digits\<close>
  "is_cents d = (case d of Finite sg c e \<Rightarrow> e = - 2 | _ \<Rightarrow> False)"

definition cents_of :: "decimal \<Rightarrow> int" where
  \<comment> \<open>the signed coefficient: the amount in hundredths when the exponent is \<open>-2\<close>\<close>
  "cents_of d = (case d of Finite sg c e \<Rightarrow> signed_value sg c | _ \<Rightarrow> 0)"

definition exact_sum :: "decimal list \<Rightarrow> int" where
  \<comment> \<open>the mathematical sum of two-digit amounts, in hundredths\<close>
  "exact_sum ds = sum_list (map cents_of ds)"

definition magnitude_sum :: "decimal list \<Rightarrow> nat" where
  \<comment> \<open>the sum of the absolute amounts, in hundredths: below \<open>10 ^ prec\<close> no running total
      needs more than \<open>prec\<close> digits\<close>
  "magnitude_sum ds = sum_list (map (\<lambda>d. nat \<bar>cents_of d\<bar>) ds)"

definition cents :: "int \<Rightarrow> decimal" where
  \<comment> \<open>the two-digit \<open>Decimal\<close> of an amount in hundredths\<close>
  "cents i = Finite (i < 0) (nat \<bar>i\<bar>) (- 2)"

definition reference_resolves :: "split_in \<Rightarrow> db \<Rightarrow> bool" where
  \<comment> \<open>the split's account reference names an existing account: by \<open>account_id\<close> when the
      split has one, else by \<open>account_name\<close>\<close>
  "reference_resolves s d =
     (case account_id s of
        Some i \<Rightarrow> list_ex (\<lambda>a. accountID a = i) (accounts d)
      | None \<Rightarrow> (case account_name s of
                   Some n \<Rightarrow> list_ex (\<lambda>a. acc_name a = n) (accounts d)
                 | None \<Rightarrow> False))"

definition mem_resolves :: "split_in \<Rightarrow> mem \<Rightarrow> bool" where
  \<comment> \<open>the same for the in-memory repository, which takes an \<open>account_id\<close> as given\<close>
  "mem_resolves s m =
     (case account_id s of
        Some i \<Rightarrow> True
      | None \<Rightarrow> (case account_name s of
                   Some n \<Rightarrow> list_ex (\<lambda>a. stub_name a = n) (mem_accounts m)
                 | None \<Rightarrow> False))"

subsection \<open>The two quantization disciplines\<close>

definition quantized_zero :: "decimal \<Rightarrow> bool" where
  \<comment> \<open>\<open>t.quantize(Decimal("0.01")) == Decimal("0.00")\<close>\<close>
  "quantized_zero t = (case quantize2 t of Inl e \<Rightarrow> False | Inr q \<Rightarrow> \<not> dec_ne_zero q)"

fun per_split_total :: "raw list \<Rightarrow> decimal \<Rightarrow> decimal option" where
  \<comment> \<open>quantize each amount, then sum\<close>
  "per_split_total [] t = Some t"
| "per_split_total (r # rs) t =
     (case Decimal (py_str r) of
        None \<Rightarrow> None
      | Some d \<Rightarrow>
          (case quantize2 d of
             Inl e \<Rightarrow> None
           | Inr q \<Rightarrow> (case dec_add t q of Inl e \<Rightarrow> None | Inr t' \<Rightarrow> per_split_total rs t')))"

fun post_sum_total :: "raw list \<Rightarrow> decimal \<Rightarrow> decimal option" where
  \<comment> \<open>sum the raw amounts\<close>
  "post_sum_total [] t = Some t"
| "post_sum_total (r # rs) t =
     (case Decimal (py_str r) of
        None \<Rightarrow> None
      | Some d \<Rightarrow> (case dec_add t d of Inl e \<Rightarrow> None | Inr t' \<Rightarrow> post_sum_total rs t'))"

definition per_split_accepts :: "raw list \<Rightarrow> bool" where
  \<comment> \<open>quantize-each-then-sum: the sum of the quantized amounts, quantized, is \<open>0.00\<close>\<close>
  "per_split_accepts raws =
     (case per_split_total raws zero_00 of None \<Rightarrow> False | Some t \<Rightarrow> quantized_zero t)"

definition post_sum_accepts :: "raw list \<Rightarrow> bool" where
  \<comment> \<open>the discipline of the specification: \<open>quantize(sum(raw amounts), 0.01) == 0.00\<close>\<close>
  "post_sum_accepts raws =
     (case post_sum_total raws zero_00 of None \<Rightarrow> False | Some t \<Rightarrow> quantized_zero t)"

subsection \<open>Example inputs\<close>

definition split_by_id :: "string \<Rightarrow> int \<Rightarrow> split_in" where
  \<comment> \<open>\<open>{"amount": a, "account_id": i}\<close>, for a text \<open>a\<close> of digits, signs and points\<close>
  "split_by_id a i =
     \<lparr>amount = Some (RawStr a), account_id = Some i, account_name = None,
      dict_repr = ''{'' @ quote @ ''amount'' @ quote @ '': '' @ quote @ a @ quote @ '', ''
                    @ quote @ ''account_id'' @ quote @ '': '' @ str_int i @ ''}''\<rparr>"

definition split_by_name :: "string \<Rightarrow> string \<Rightarrow> split_in" where
  \<comment> \<open>\<open>{"amount": a, "account_name": n}\<close>, for texts of letters, digits, signs and points\<close>
  "split_by_name a n =
     \<lparr>amount = Some (RawStr a), account_id = None, account_name = Some n,
      dict_repr = ''{'' @ quote @ ''amount'' @ quote @ '': '' @ quote @ a @ quote @ '', ''
                    @ quote @ ''account_name'' @ quote @ '': '' @ quote @ n @ quote @ ''}''\<rparr>"

definition huge :: string where
  \<comment> \<open>the largest amount with 28 digits\<close>
  "huge = ''99999999999999999999999999.99''"

definition mem_bank1 :: mem where
  \<comment> \<open>an in-memory store with one account\<close>
  "mem_bank1 = snd (inmemory_accounts_create ''ASSET:Bank'' ''ASSET'' 1 empty_mem)"

chapter \<open>Properties\<close>

section \<open>Strings\<close>

lemma startswith_iff: "startswith s p \<longleftrightarrow> (\<exists>b. s = p @ b)"
  by (induction s p rule: startswith.induct) auto

text \<open>\<open>contains\<close> is the substring test.\<close>

lemma contains_iff: "contains s kw \<longleftrightarrow> (\<exists>a b. s = a @ kw @ b)"
proof (induction s)
  case Nil
  then show ?case by auto
next
  case (Cons c cs)
  show ?case
  proof
    assume "contains (c # cs) kw"
    then consider "startswith (c # cs) kw" | "contains cs kw" by auto
    then show "\<exists>a b. c # cs = a @ kw @ b"
    proof cases
      case 1
      then obtain b where "c # cs = kw @ b" by (auto simp: startswith_iff)
      then have "c # cs = [] @ kw @ b" by simp
      then show ?thesis by blast
    next
      case 2
      then obtain a b where "cs = a @ kw @ b" using Cons.IH by auto
      then have "c # cs = (c # a) @ kw @ b" by simp
      then show ?thesis by blast
    qed
  next
    assume "\<exists>a b. c # cs = a @ kw @ b"
    then obtain a b where ab: "c # cs = a @ kw @ b" by blast
    show "contains (c # cs) kw"
    proof (cases a)
      case Nil
      with ab have "startswith (c # cs) kw" by (auto simp: startswith_iff)
      then show ?thesis by simp
    next
      case (Cons x a')
      with ab have "cs = a' @ kw @ b" by simp
      then have "contains cs kw" using Cons.IH by blast
      then show ?thesis by simp
    qed
  qed
qed

section \<open>The import content hash\<close>

lemma compute_hash_bytes:
  "compute_hash f None = SHA256 f"
  "compute_hash f (Some []) = SHA256 f"
  "r \<noteq> [] \<Longrightarrow> compute_hash f (Some r) = SHA256 (f @ rules_marker @ r)"
  by (simp_all add: compute_hash_def sha256_update_def sha256_new_def hexdigest_def)

text \<open>
  C10, as claimed, for every pair of byte strings: it fails where the rules file is empty.
  The file \<open>data::RULES::\<close> alone hashes all of its bytes, while the file \<open>data\<close> with an empty
  rules file hashes \<open>data\<close> only (the source tests \<open>if rules_bytes:\<close>).
\<close>

theorem compute_hash_empty_rules_differs:
  "compute_hash (''data'' @ rules_marker @ []) None \<noteq> compute_hash ''data'' (Some [])"
  by (simp add: compute_hash_def sha256_update_def sha256_new_def hexdigest_def rules_marker_def)

text \<open>
  C10, amended: the hash is SHA-256 of the file bytes alone when the rules are absent or
  empty, and of \<open>file_bytes ++ "::RULES::" ++ rules_bytes\<close> otherwise; so for every file \<open>f\<close>
  and every non-empty rules file \<open>r\<close>, the single file \<open>f ++ "::RULES::" ++ r\<close> without rules
  has the content hash of \<open>f\<close> with the rules file \<open>r\<close>.
\<close>

theorem compute_hash_concat_collision:
  "compute_hash f None = SHA256 f \<and> compute_hash f (Some []) = SHA256 f \<and>
   (r \<noteq> [] \<longrightarrow> compute_hash f (Some r) = SHA256 (f @ rules_marker @ r) \<and>
                compute_hash (f @ rules_marker @ r) None = compute_hash f (Some r))"
  by (simp add: compute_hash_bytes)

theorem compute_hash_concat_collision_witness:
  "''rules: []'' \<noteq> [] \<and>
   compute_hash (''a,b'' @ rules_marker @ ''rules: []'') None = compute_hash ''a,b'' (Some ''rules: []'')"
  using compute_hash_concat_collision [of "''a,b''" "''rules: []''"] by simp

section \<open>The rule matcher\<close>

lemma keyword_hit_iff:
  "keyword_hit lib t kws = list_ex (\<lambda>kw. contains t (py_lower lib kw)) kws"
  by (induction kws) auto

lemma rule_outcome_not_ReError: "rule_outcome lib re_search txt r \<noteq> ReError"
  by (simp add: rule_outcome_def split: option.split re_outcome.split)

lemma match_loop_Cons:
  "match_loop lib re_search (py_lower lib txt) txt (r # rs) =
     (case rule_outcome lib re_search txt r of
        Matched \<Rightarrow> Inr (Some r)
      | NotMatched \<Rightarrow> match_loop lib re_search (py_lower lib txt) txt rs
      | ReError \<Rightarrow> match_loop lib re_search (py_lower lib txt) txt rs
      | Raised e \<Rightarrow> Inl e)"
  by (simp add: rule_outcome_def rule_kind_def keyword_found_def keyword_hit_iff Let_def
           split: option.split re_outcome.split)

lemma match_loop_first_decides:
  "match_loop lib re_search (py_lower lib txt) txt rs =
     (case find (\<lambda>r. rule_outcome lib re_search txt r \<noteq> NotMatched) rs of
        None \<Rightarrow> Inr None
      | Some r \<Rightarrow> (case rule_outcome lib re_search txt r of
                     Raised e \<Rightarrow> Inl e
                   | _ \<Rightarrow> Inr (Some r)))"
proof (induction rs)
  case Nil
  show ?case by simp
next
  case (Cons r rs)
  show ?case
  proof (cases "rule_outcome lib re_search txt r")
    case Matched
    then show ?thesis by (simp only: match_loop_Cons) simp
  next
    case NotMatched
    then show ?thesis using Cons.IH by (simp only: match_loop_Cons) simp
  next
    case ReError
    then show ?thesis using rule_outcome_not_ReError by blast
  next
    case (Raised e)
    then show ?thesis by (simp only: match_loop_Cons) simp
  qed
qed

lemma find_cong_all: "list_all (\<lambda>x. P x = Q x) xs \<Longrightarrow> find P xs = find Q xs"
  by (induction xs) auto

text \<open>
  C6, as claimed: a regex rule matches when its pattern matches, and an invalid pattern is
  skipped rather than raising. It fails for a regex rule whose pattern is the empty string:
  the pattern matches every text, and \<open>_match_rule\<close> passes the rule over
  (\<open>if not matcher: continue\<close>). And only \<open>re.error\<close> is caught: the pattern
  \<open>a{4294967296}\<close> makes \<open>re.search\<close> raise \<open>OverflowError\<close>, which leaves \<open>_match_rule\<close>.
\<close>

theorem match_rule_empty_pattern_skipped:
  "match_rule ascii_library literal_search (ustr ''abc'') [empty_regex_rule]
     \<noteq> Inr (find (claimed_rule_matches ascii_library literal_search (ustr ''abc'')) [empty_regex_rule]) \<and>
   match_rule ascii_library literal_search (ustr ''abc'') [overflow_rule, food_rule]
     = Inl (OverflowError ''the repetition number is too large'')"
  by code_simp

text \<open>
  C6, amended: the rules are tried in the given order and the first rule that matches is
  returned, \<open>None\<close> when none does. A rule with no matcher or an empty one never matches; a
  rule without a \<open>matcher_type\<close> is a keyword rule; a keyword rule matches iff any of its
  comma-separated keywords (stripped, the empty ones dropped) occurs in the lowered text
  when lowered; a regex rule matches iff \<open>re.search\<close> finds its pattern in the text with
  \<open>re.IGNORECASE\<close>; a pattern that \<open>re\<close> rejects with \<open>re.error\<close> is skipped; a rule of any
  other type never matches. Any other exception that \<open>re.search\<close> raises for a rule reached
  before a match propagates to the caller. The statement is for every text, every
  \<open>str.lower\<close>, \<open>str.strip\<close> and \<open>re.search\<close>.
\<close>

theorem match_rule_first_match:
  "match_rule lib re_search txt rs =
     (case find (\<lambda>r. rule_outcome lib re_search txt r \<noteq> NotMatched) rs of
        None \<Rightarrow> Inr None
      | Some r \<Rightarrow> (case rule_outcome lib re_search txt r of
                     Raised e \<Rightarrow> Inl e
                   | _ \<Rightarrow> Inr (Some r))) \<and>
   (list_all (\<lambda>r. rule_outcome lib re_search txt r = Matched \<or>
                   rule_outcome lib re_search txt r = NotMatched) rs \<longrightarrow>
      match_rule lib re_search txt rs
        = Inr (find (\<lambda>r. rule_outcome lib re_search txt r = Matched) rs))"
proof
  show first: "match_rule lib re_search txt rs =
     (case find (\<lambda>r. rule_outcome lib re_search txt r \<noteq> NotMatched) rs of
        None \<Rightarrow> Inr None
      | Some r \<Rightarrow> (case rule_outcome lib re_search txt r of
                     Raised e \<Rightarrow> Inl e
                   | _ \<Rightarrow> Inr (Some r)))"
    by (simp add: match_rule_def match_loop_first_decides)
  show "list_all (\<lambda>r. rule_outcome lib re_search txt r = Matched \<or>
                   rule_outcome lib re_search txt r = NotMatched) rs \<longrightarrow>
      match_rule lib re_search txt rs
        = Inr (find (\<lambda>r. rule_outcome lib re_search txt r = Matched) rs)"
  proof
    assume a: "list_all (\<lambda>r. rule_outcome lib re_search txt r = Matched \<or>
                   rule_outcome lib re_search txt r = NotMatched) rs"
    then have "list_all (\<lambda>r. (rule_outcome lib re_search txt r \<noteq> NotMatched)
                  = (rule_outcome lib re_search txt r = Matched)) rs"
      by (auto simp: list_all_iff)
    then have f: "find (\<lambda>r. rule_outcome lib re_search txt r \<noteq> NotMatched) rs
                = find (\<lambda>r. rule_outcome lib re_search txt r = Matched) rs"
      by (rule find_cong_all)
    show "match_rule lib re_search txt rs
        = Inr (find (\<lambda>r. rule_outcome lib re_search txt r = Matched) rs)"
    proof (cases "find (\<lambda>r. rule_outcome lib re_search txt r = Matched) rs")
      case None
      then show ?thesis using first f by simp
    next
      case (Some r)
      then have "rule_outcome lib re_search txt r = Matched" by (auto simp: find_Some_iff)
      then show ?thesis using first f Some by simp
    qed
  qed
qed

theorem match_rule_first_match_witness:
  "list_all (\<lambda>r. rule_outcome ascii_library literal_search (ustr ''SuperMarket 12'') r = Matched \<or>
                 rule_outcome ascii_library literal_search (ustr ''SuperMarket 12'') r = NotMatched)
      [bad_regex_rule, empty_regex_rule, fuel_rule, food_rule] \<and>
   match_rule ascii_library literal_search (ustr ''SuperMarket 12'')
      [bad_regex_rule, empty_regex_rule, fuel_rule, food_rule] = Inr (Some food_rule) \<and>
   match_rule ascii_library literal_search (ustr ''WHOLEFOODS MARKET'') [bad_regex_rule, food_rule]
     = Inr None \<and>
   match_rule ascii_library literal_search (ustr ''Shell 42'') [food_rule, fuel_rule, overflow_rule]
     = Inr (Some fuel_rule) \<and>
   match_rule ascii_library literal_search (ustr ''abc'') [food_rule, overflow_rule, fuel_rule]
     = Inl (OverflowError ''the repetition number is too large'')"
proof -
  let ?o = "rule_outcome ascii_library literal_search"
  have h1: "list_all (\<lambda>r. ?o (ustr ''SuperMarket 12'') r = Matched \<or> ?o (ustr ''SuperMarket 12'') r = NotMatched)
      [bad_regex_rule, empty_regex_rule, fuel_rule, food_rule]" by code_simp
  have f1: "find (\<lambda>r. ?o (ustr ''SuperMarket 12'') r = Matched)
      [bad_regex_rule, empty_regex_rule, fuel_rule, food_rule] = Some food_rule" by code_simp
  have f2: "find (\<lambda>r. ?o (ustr ''WHOLEFOODS MARKET'') r \<noteq> NotMatched) [bad_regex_rule, food_rule] = None"
    by code_simp
  have f3: "find (\<lambda>r. ?o (ustr ''Shell 42'') r \<noteq> NotMatched) [food_rule, fuel_rule, overflow_rule]
      = Some fuel_rule" by code_simp
  have o3: "?o (ustr ''Shell 42'') fuel_rule = Matched" by code_simp
  have f4: "find (\<lambda>r. ?o (ustr ''abc'') r \<noteq> NotMatched) [food_rule, overflow_rule, fuel_rule]
      = Some overflow_rule" by code_simp
  have o4: "?o (ustr ''abc'') overflow_rule = Raised (OverflowError ''the repetition number is too large'')"
    by code_simp
  note t1 = match_rule_first_match [of ascii_library literal_search "ustr ''SuperMarket 12''"
      "[bad_regex_rule, empty_regex_rule, fuel_rule, food_rule]", THEN conjunct2]
  note t2 = match_rule_first_match [of ascii_library literal_search "ustr ''WHOLEFOODS MARKET''"
      "[bad_regex_rule, food_rule]", THEN conjunct1]
  note t3 = match_rule_first_match [of ascii_library literal_search "ustr ''Shell 42''"
      "[food_rule, fuel_rule, overflow_rule]", THEN conjunct1]
  note t4 = match_rule_first_match [of ascii_library literal_search "ustr ''abc''"
      "[food_rule, overflow_rule, fuel_rule]", THEN conjunct1]
  show ?thesis using h1 f1 t1 t2 f2 t3 f3 o3 t4 f4 o4 by simp
qed

section \<open>Accounts: uniqueness and get-or-create\<close>

lemma accounts_ledger_get_or_create [simp]:
  "accounts (ledger_get_or_create lid n d) = accounts d"
  "next_account (ledger_get_or_create lid n d) = next_account d"
  by (simp_all add: ledger_get_or_create_def)

lemma accounts_create_result:
  assumes "accounts_create name ft par act lid d = (acc, d')"
  shows "acc_ledger acc = lid" "acc_name acc = name" "accountID acc = next_account d"
        "accounts d' = accounts d @ [acc]"
  using assms by (auto simp: accounts_create_def Let_def)

lemma find_name_None: "find (\<lambda>a. acc_name a = name) xs = None \<longleftrightarrow> name \<notin> acc_name ` set xs"
  by (auto simp: find_None_iff)

text \<open>
  C8: after any sequence of account creations and get-or-create resolutions no two accounts
  share a (ledger, name) pair. \<open>_ensure_account\<close> breaks this: it looks the name up across
  all ledgers (\<open>get_by_name\<close> is \<open>filter(name=name).first()\<close>) and compares the ledger of
  the first row only. Once \<open>Bank\<close> exists in ledger 1, every resolution of \<open>Bank\<close> for
  ledger 2 finds ledger 1's row and creates one more \<open>Bank\<close> in ledger 2, although its
  docstring says "Get or create". Three resolutions, for the ledgers 1, 2 and 2, on the
  empty store leave two accounts \<open>(2, Bank)\<close>.
\<close>

theorem ensure_account_duplicates:
  "map (\<lambda>a. (accountID a, acc_ledger a, acc_name a))
     (accounts (snd (ensure_account ''Bank'' ''ASSET'' 2
                  (snd (ensure_account ''Bank'' ''ASSET'' 2
                    (snd (ensure_account ''Bank'' ''ASSET'' 1 empty_db)))))))
     = [(1, 1, ''Bank''), (2, 2, ''Bank''), (3, 2, ''Bank'')] \<and>
   \<not> unique_accounts (snd (ensure_account ''Bank'' ''ASSET'' 2
                          (snd (ensure_account ''Bank'' ''ASSET'' 2
                            (snd (ensure_account ''Bank'' ''ASSET'' 1 empty_db))))))"
  by code_simp

text \<open>
  What \<open>_ensure_account\<close> does keep: the account it returns belongs to the target ledger and
  has the requested name, so a name that exists only in another ledger is never reused;
  when no account of the target ledger has the name, a new one is appended and the
  existing rows are kept; and in a store whose accounts all belong to one ledger, with
  distinct names, a resolution for that ledger keeps the names distinct.
\<close>

lemma ensure_account_per_ledger:
  assumes "ensure_account name ft lid d = (acc, d')"
  shows "acc_ledger acc = lid \<and> acc_name acc = name \<and> acc \<in> set (accounts d') \<and>
         (\<not> list_ex (\<lambda>a. acc_name a = name \<and> acc_ledger a = lid) (accounts d) \<longrightarrow>
            accounts d' = accounts d @ [acc] \<and> accountID acc = next_account d) \<and>
         (single_ledger lid d \<and> unique_accounts d \<longrightarrow>
            single_ledger lid d' \<and> unique_accounts d' \<and>
            (list_ex (\<lambda>a. acc_name a = name) (accounts d) \<longrightarrow> d' = d))"
proof (cases "get_by_name name d")
  case None
  then have cr: "accounts_create name ft None True lid d = (acc, d')"
    using assms by (simp add: ensure_account_def)
  have fresh: "name \<notin> acc_name ` set (accounts d)"
    using None by (simp add: get_by_name_def find_name_None)
  note r = accounts_create_result [OF cr]
  have no_ex: "\<not> list_ex (\<lambda>a. acc_name a = name) (accounts d)"
    using fresh by (auto simp: list_ex_iff)
  show ?thesis
    using r fresh no_ex
    by (auto simp: single_ledger_def unique_accounts_def list_all_iff)
next
  case (Some a)
  then have a_in: "a \<in> set (accounts d)" and a_name: "acc_name a = name"
    by (auto simp: get_by_name_def find_Some_iff)
  show ?thesis
  proof (cases "acc_ledger a = lid")
    case True
    then have "acc = a" "d' = d" using assms Some by (simp_all add: ensure_account_def)
    then show ?thesis using a_in a_name True by (auto simp: list_ex_iff)
  next
    case False
    then have cr: "accounts_create name ft None True lid d = (acc, d')"
      using assms Some by (simp add: ensure_account_def)
    note r = accounts_create_result [OF cr]
    have "\<not> single_ledger lid d" using a_in False by (auto simp: single_ledger_def list_all_iff)
    then show ?thesis using r by auto
  qed
qed

section \<open>Decimal arithmetic within the precision\<close>

lemma ndigits_le: "n < 10 ^ k \<Longrightarrow> 0 < k \<Longrightarrow> ndigits n \<le> k"
proof (induction n arbitrary: k rule: ndigits.induct)
  case (1 n)
  show ?case
  proof (cases "n < 10")
    case True
    then show ?thesis using "1.prems" by (simp add: ndigits.simps [of n])
  next
    case False
    then obtain j where k: "k = Suc j" using "1.prems" by (cases k) auto
    have "j \<noteq> 0" using False "1.prems" k by (cases j) auto
    moreover have "n div 10 < 10 ^ j" using "1.prems" k by (simp add: less_mult_imp_div_less mult.commute)
    ultimately have "ndigits (n div 10) \<le> j" using "1.IH" False by simp
    then show ?thesis using False k by (simp add: ndigits.simps [of n])
  qed
qed

lemma dec_fix_small: "c < 10 ^ prec \<Longrightarrow> dec_fix sg c e = Finite sg c e"
  using ndigits_le [of c prec] by (simp add: dec_fix_def prec_def)

lemma quantize2_Finite:
  "quantize2 d = Inr (Finite sg c e) \<Longrightarrow> e = - 2 \<and> c < 10 ^ prec"
  by (cases d) (auto simp: quantize2_def fix_nan_def split: if_splits)

lemma quantize2_result:
  "quantize2 d = Inr q \<Longrightarrow> (\<exists>sg c. q = Finite sg c (- 2) \<and> c < 10 ^ prec) \<or> (\<exists>sg p. q = NaN sg False p)"
  by (cases d) (auto simp: quantize2_def fix_nan_def split: if_splits)

lemma quantize2_idem:
  "c < 10 ^ prec \<Longrightarrow> quantize2 (Finite sg c (- 2)) = Inr (Finite sg c (- 2))"
  using ndigits_le [of c prec] by (auto simp: quantize2_def rescale_def prec_def)

lemma signed_abs: "r \<noteq> 0 \<Longrightarrow> signed_value (r < 0) (nat \<bar>r\<bar>) = r"
  by (simp add: signed_value_def)

lemma dec_add_exact:
  assumes "nat \<bar>signed_value s1 c1 + signed_value s2 c2\<bar> < 10 ^ prec"
  shows "\<exists>sg. dec_add (Finite s1 c1 (- 2)) (Finite s2 c2 (- 2))
               = Inr (Finite sg (nat \<bar>signed_value s1 c1 + signed_value s2 c2\<bar>) (- 2))
             \<and> signed_value sg (nat \<bar>signed_value s1 c1 + signed_value s2 c2\<bar>) = signed_value s1 c1 + signed_value s2 c2"
proof (cases "signed_value s1 c1 + signed_value s2 c2 = 0")
  case True
  then show ?thesis
    by (auto simp: dec_add_def Let_def dec_fix_small prec_def signed_value_def)
next
  case False
  then show ?thesis using assms
    by (auto simp: dec_add_def Let_def dec_fix_small signed_abs)
qed

lemma abs_signed [simp]: "nat \<bar>signed_value sg c\<bar> = c"
  by (simp add: signed_value_def)

section \<open>The balance check of \<open>DjangoTransactionsRepo.create\<close>\<close>

lemma normalized_SomeD:
  "normalized norm s = Some a \<Longrightarrow> \<exists>r. amount s = Some r \<and> norm r = Inr a"
  by (auto simp: normalized_def split: option.splits sum.splits)

lemma normalize_loop_exact:
  assumes "map (normalized django_normalize_amount) ss = map Some ds"
    and "list_all is_cents ds"
    and "t + magnitude_sum ds < 10 ^ prec"
  shows "\<exists>sg' t'. normalize_loop ss acc (Finite sg t (- 2))
                      = Inr (acc @ zip ss ds, Finite sg' t' (- 2))
                  \<and> signed_value sg' t' = signed_value sg t + exact_sum ds \<and> t' \<le> t + magnitude_sum ds"
  using assms
proof (induction ss arbitrary: ds acc sg t)
  case Nil
  then show ?case by (simp add: exact_sum_def magnitude_sum_def)
next
  case (Cons s ss)
  then obtain a ds' where ds: "ds = a # ds'" by (cases ds) auto
  from Cons.prems ds have na: "normalized django_normalize_amount s = Some a"
    and rest: "map (normalized django_normalize_amount) ss = map Some ds'" by auto
  from normalized_SomeD [OF na] obtain r where r: "amount s = Some r" "django_normalize_amount r = Inr a"
    by blast
  from Cons.prems ds obtain sa ca where a: "a = Finite sa ca (- 2)"
    by (cases a) (auto simp: is_cents_def)
  have mag: "magnitude_sum ds = ca + magnitude_sum ds'"
    by (simp add: ds a magnitude_sum_def cents_of_def)
  have ex: "exact_sum ds = signed_value sa ca + exact_sum ds'"
    by (simp add: ds a exact_sum_def cents_of_def)
  let ?r = "signed_value sg t + signed_value sa ca"
  have bound: "nat \<bar>?r\<bar> \<le> t + ca"
    by (auto simp: signed_value_def)
  have "t + ca < 10 ^ prec" using Cons.prems(3) mag by simp
  with bound have small: "nat \<bar>?r\<bar> < 10 ^ prec" by (rule le_less_trans)
  from dec_add_exact [OF small] obtain sg1 where
    add: "dec_add (Finite sg t (- 2)) (Finite sa ca (- 2)) = Inr (Finite sg1 (nat \<bar>?r\<bar>) (- 2))"
    and sgn: "signed_value sg1 (nat \<bar>?r\<bar>) = ?r" by blast
  have "nat \<bar>?r\<bar> + magnitude_sum ds' < 10 ^ prec" using bound Cons.prems(3) mag by simp
  moreover have "list_all is_cents ds'" using Cons.prems(2) ds by simp
  ultimately obtain sg' t' where
    ih: "normalize_loop ss (acc @ [(s, a)]) (Finite sg1 (nat \<bar>?r\<bar>) (- 2))
           = Inr ((acc @ [(s, a)]) @ zip ss ds', Finite sg' t' (- 2))"
    and ihs: "signed_value sg' t' = signed_value sg1 (nat \<bar>?r\<bar>) + exact_sum ds'"
    and iht: "t' \<le> nat \<bar>?r\<bar> + magnitude_sum ds'"
    using Cons.IH [OF rest, of "nat \<bar>?r\<bar>" "acc @ [(s, a)]" sg1] by blast
  show ?case
    using r a add ih ihs iht sgn bound ds ex mag by auto
qed

lemma signed_zero_iff: "signed_value sg c = 0 \<longleftrightarrow> c = 0"
  by (simp add: signed_value_def)

lemma django_validate_exact:
  assumes "map (normalized django_normalize_amount) ss = map Some ds"
    and "list_all is_cents ds"
    and "magnitude_sum ds < 10 ^ prec"
    and "ss \<noteq> []"
  shows "django_validate ss =
           (if exact_sum ds = 0 then Inr (zip ss ds)
            else Inl (ValidationError (''Transaction not balanced: splits sum to ''
                        @ str_decimal (cents (exact_sum ds)))))"
proof -
  from normalize_loop_exact [OF assms(1,2), of 0 "[]" False] assms(3)
  obtain sg' t' where
    loop: "normalize_loop ss [] zero_00 = Inr (zip ss ds, Finite sg' t' (- 2))"
    and s: "signed_value sg' t' = exact_sum ds" and t: "t' \<le> magnitude_sum ds"
    by (auto simp: zero_00_def signed_value_def)
  have small: "t' < 10 ^ prec" using t assms(3) by simp
  have q: "quantize2 (Finite sg' t' (- 2)) = Inr (Finite sg' t' (- 2))"
    by (rule quantize2_idem [OF small])
  show ?thesis
  proof (cases "exact_sum ds = 0")
    case True
    then have "t' = 0" using s by (simp add: signed_zero_iff)
    then show ?thesis using True loop q assms(4)
      by (simp add: django_validate_def dec_ne_zero_def)
  next
    case False
    then have t0: "t' \<noteq> 0" using s by (auto simp: signed_value_def split: if_splits)
    have "cents (exact_sum ds) = Finite sg' t' (- 2)"
      using s t0 by (auto simp: cents_def signed_value_def split: if_splits)
    then show ?thesis using False loop q assms(4) t0
      by (simp add: django_validate_def dec_ne_zero_def)
  qed
qed

lemma is_cents_finite: "is_cents d \<Longrightarrow> is_finite d"
  by (cases d) (auto simp: is_cents_def is_finite_def)

lemma dec_fix_finite [simp]: "is_finite (dec_fix sg c e)"
  by (simp add: dec_fix_def is_finite_def Let_def)

lemma dec_add_finiteD:
  "dec_add a b = Inr t \<Longrightarrow> is_finite t \<Longrightarrow> is_finite a \<and> is_finite b"
  by (cases a; cases b)
     (auto simp: dec_add_def is_finite_def fix_nan_def split: if_splits bool.splits)

lemma quantize2_finiteD:
  "quantize2 d = Inr q \<Longrightarrow> is_finite q \<Longrightarrow> is_finite d \<and> is_cents q"
  by (cases d) (auto simp: quantize2_def is_finite_def is_cents_def fix_nan_def split: if_splits)

lemma django_normalize_finite:
  "django_normalize_amount r = Inr a \<Longrightarrow> is_finite a \<Longrightarrow> is_cents a"
  by (auto simp: django_normalize_amount_def split: option.splits dest: quantize2_finiteD)

lemma normalize_loop_shape:
  assumes "normalize_loop ss acc tot = Inr (r, tot')" and "is_finite tot'"
  shows "is_finite tot \<and> (\<exists>ds. r = acc @ zip ss ds \<and> length ds = length ss \<and>
            map (normalized django_normalize_amount) ss = map Some ds \<and> list_all is_cents ds)"
  using assms
proof (induction ss arbitrary: acc tot)
  case Nil
  then show ?case by simp
next
  case (Cons s ss)
  from Cons.prems(1) obtain raw0 a tot1 where
    am: "amount s = Some raw0" and nm: "django_normalize_amount raw0 = Inr a"
    and ad: "dec_add tot a = Inr tot1"
    and rec: "normalize_loop ss (acc @ [(s, a)]) tot1 = Inr (r, tot')"
    by (auto split: option.splits sum.splits)
  from Cons.IH [OF rec Cons.prems(2)] obtain ds where
    f1: "is_finite tot1" and r: "r = (acc @ [(s, a)]) @ zip ss ds" and len: "length ds = length ss"
    and nz: "map (normalized django_normalize_amount) ss = map Some ds" and c: "list_all is_cents ds"
    by blast
  from dec_add_finiteD [OF ad f1] have ft: "is_finite tot" and fa: "is_finite a" by simp_all
  have ca: "is_cents a" by (rule django_normalize_finite [OF nm fa])
  have na: "normalized django_normalize_amount s = Some a" by (simp add: normalized_def am nm)
  have "r = acc @ zip (s # ss) (a # ds)" using r by simp
  moreover have "map (normalized django_normalize_amount) (s # ss) = map Some (a # ds)"
    using na nz by simp
  moreover have "list_all is_cents (a # ds)" using ca c by simp
  moreover have "length (a # ds) = length (s # ss)" using len by simp
  ultimately show ?case using ft by blast
qed

lemma zero_00_finite [simp]: "is_finite zero_00"
  by (simp add: zero_00_def is_finite_def)

lemma django_validate_shape:
  assumes "django_validate ss = Inr r"
  shows "ss \<noteq> [] \<and> (\<exists>ds. r = zip ss ds \<and> length ds = length ss \<and>
            map (normalized django_normalize_amount) ss = map Some ds \<and> list_all is_cents ds)"
proof -
  from assms have ne: "ss \<noteq> []" by (auto simp: django_validate_def split: if_splits)
  from assms ne obtain tot q where
    loop: "normalize_loop ss [] zero_00 = Inr (r, tot)" and q: "quantize2 tot = Inr q"
    and z: "\<not> dec_ne_zero q"
    by (auto simp: django_validate_def split: sum.splits if_splits)
  from z have "is_finite q" by (cases q) (auto simp: dec_ne_zero_def is_finite_def)
  with q have "is_finite tot" by (auto dest: quantize2_finiteD)
  from normalize_loop_shape [OF loop this] ne show ?thesis by auto
qed

section \<open>The atomic block of \<open>DjangoTransactionsRepo.create\<close>\<close>

lemma resolve_account_accounts:
  "accounts d1 = accounts d2 \<Longrightarrow> resolve_account s d1 = resolve_account s d2"
  by (auto simp: resolve_account_def accounts_get_def get_by_name_def split: option.splits)

lemma find_None_list_ex: "find P xs = None \<longleftrightarrow> \<not> list_ex P xs"
  by (auto simp: find_None_iff list_ex_iff)

lemma resolve_account_unresolved:
  "\<not> reference_resolves s d \<Longrightarrow> \<exists>m. resolve_account s d = Inl (ValidationError m)"
  by (auto simp: reference_resolves_def resolve_account_def accounts_get_def get_by_name_def
                 find_None_list_ex [symmetric] split: option.splits)

lemma resolve_account_error:
  "resolve_account s d = Inl e \<Longrightarrow> is_ValidationError e \<and> \<not> reference_resolves s d"
  by (auto simp: reference_resolves_def resolve_account_def accounts_get_def get_by_name_def
                 find_None_list_ex [symmetric] split: option.splits)

lemma create_splits_frame:
  "create_splits tx ds d = (res, d') \<Longrightarrow>
     accounts d' = accounts d \<and> ledgers d' = ledgers d \<and> transactions d' = transactions d \<and>
     tags d' = tags d \<and> transaction_tags d' = transaction_tags d"
proof (induction ds arbitrary: d)
  case Nil
  then show ?case by simp
next
  case (Cons x ds)
  obtain s a where x: "x = (s, a)" by (cases x)
  show ?case
  proof (cases "resolve_account s d")
    case (Inl e)
    then show ?thesis using Cons.prems x by simp
  next
    case (Inr acc)
    then show ?thesis using Cons.prems x Cons.IH [of "d\<lparr>splits := splits d @ [\<lparr>split_id = next_split d, split_transaction = tx,
                                        split_account = accountID acc, split_amount = a\<rparr>],
               next_split := next_split d + 1\<rparr>"] by simp
  qed
qed

lemma create_splits_ok:
  "create_splits tx ds d = (Inr u, d') \<Longrightarrow>
     \<exists>rows. splits d' = splits d @ rows \<and> map split_amount rows = map snd ds \<and>
            list_all (\<lambda>r. split_transaction r = tx) rows \<and>
            list_all (\<lambda>(s, a). reference_resolves s d) ds"
proof (induction ds arbitrary: d)
  case Nil
  then show ?case by simp
next
  case (Cons x ds)
  obtain s a where x: "x = (s, a)" by (cases x)
  from Cons.prems x obtain acc where acc: "resolve_account s d = Inr acc"
    by (auto split: sum.splits)
  let ?row = "\<lparr>split_id = next_split d, split_transaction = tx,
               split_account = accountID acc, split_amount = a\<rparr>"
  let ?d1 = "d\<lparr>splits := splits d @ [?row], next_split := next_split d + 1\<rparr>"
  from Cons.prems x acc have rec: "create_splits tx ds ?d1 = (Inr u, d')" by simp
  from Cons.IH [OF rec] obtain rows where
    r: "splits d' = splits ?d1 @ rows" "map split_amount rows = map snd ds"
       "list_all (\<lambda>r. split_transaction r = tx) rows"
       "list_all (\<lambda>(s, a). reference_resolves s ?d1) ds" by blast
  have res: "reference_resolves s d"
    using acc resolve_account_unresolved [of s d] by auto
  have same: "\<And>s'. reference_resolves s' ?d1 = reference_resolves s' d"
    by (auto simp: reference_resolves_def split: option.splits)
  have "splits d' = splits d @ (?row # rows)" using r(1) by simp
  moreover have "map split_amount (?row # rows) = map snd (x # ds)" using r(2) x by simp
  moreover have "list_all (\<lambda>r. split_transaction r = tx) (?row # rows)" using r(3) by simp
  moreover have "list_all (\<lambda>(s, a). reference_resolves s d) (x # ds)"
    using r(4) res x by (simp add: same)
  ultimately show ?case by blast
qed

lemma create_splits_error:
  "create_splits tx ds d = (Inl e, d') \<Longrightarrow> is_ValidationError e"
proof (induction ds arbitrary: d)
  case Nil
  then show ?case by simp
next
  case (Cons x ds)
  obtain s a where x: "x = (s, a)" by (cases x)
  show ?case
  proof (cases "resolve_account s d")
    case (Inl e')
    then show ?thesis using Cons.prems x resolve_account_error [of s d e'] by simp
  next
    case (Inr acc)
    then show ?thesis using Cons.prems x Cons.IH by simp
  qed
qed

lemma add_tags_splits [simp]:
  "splits (add_tags tx ts d) = splits d \<and> transactions (add_tags tx ts d) = transactions d
   \<and> accounts (add_tags tx ts d) = accounts d"
  by (induction ts arbitrary: d) (auto simp: tag_get_or_create_def Let_def split: option.splits)

lemma create_splits_Inl:
  "create_splits tx ds d = (Inl e, d') \<Longrightarrow> list_ex (\<lambda>(s, a). resolve_account s d = Inl e) ds"
proof (induction ds arbitrary: d)
  case Nil
  then show ?case by simp
next
  case (Cons x ds)
  obtain s a where x: "x = (s, a)" by (cases x)
  show ?case
  proof (cases "resolve_account s d")
    case (Inl e')
    then show ?thesis using Cons.prems x by simp
  next
    case (Inr acc)
    let ?d1 = "d\<lparr>splits := splits d @ [\<lparr>split_id = next_split d, split_transaction = tx,
                                        split_account = accountID acc, split_amount = a\<rparr>],
               next_split := next_split d + 1\<rparr>"
    from Cons.prems x Inr have "create_splits tx ds ?d1 = (Inl e, d')" by simp
    from Cons.IH [OF this] have "list_ex (\<lambda>(s, a). resolve_account s ?d1 = Inl e) ds" .
    moreover have "\<And>s'. resolve_account s' ?d1 = resolve_account s' d"
      by (rule resolve_account_accounts) simp
    ultimately show ?thesis by simp
  qed
qed

lemma django_create_error_unchanged:
  "django_create lid dt desc ss tgs nec d = (Inl e, d') \<Longrightarrow> d' = d"
  by (auto simp: django_create_def atomic_def split: sum.splits prod.splits)

lemma django_create_success:
  assumes "django_create lid dt desc ss tgs nec d = (Inr tx, d')"
  shows "\<exists>ds rows. ss \<noteq> [] \<and> map (normalized django_normalize_amount) ss = map Some ds \<and>
           list_all is_cents ds \<and> transactions d' = transactions d @ [tx] \<and>
           splits d' = splits d @ rows \<and> map split_amount rows = ds \<and>
           list_all (\<lambda>r. split_transaction r = transactionID tx) rows \<and>
           list_all (\<lambda>s. reference_resolves s d) ss \<and>
           (magnitude_sum ds < 10 ^ prec \<longrightarrow> exact_sum ds = 0)"
proof -
  from assms obtain r where v: "django_validate ss = Inr r"
    and b: "atomic (create_body lid dt desc r tgs nec) d = (Inr tx, d')"
    by (auto simp: django_create_def split: sum.splits)
  from django_validate_shape [OF v] obtain ds where ne: "ss \<noteq> []"
    and r: "r = zip ss ds" and len: "length ds = length ss"
    and nz: "map (normalized django_normalize_amount) ss = map Some ds"
    and c: "list_all is_cents ds" by blast
  from b have body: "create_body lid dt desc r tgs nec d = (Inr tx, d')"
    by (auto simp: atomic_def split: prod.splits sum.splits)
  then obtain day where dt: "dt = Some day"
    by (auto simp: create_body_def split: option.splits)
  define tx0 where "tx0 = \<lparr>transactionID = next_transaction d, tx_ledger = lid, tx_date = day,
                           tx_desc = desc, tx_necessary = nec\<rparr>"
  define d1 where "d1 = d\<lparr>transactions := transactions d @ [tx0],
                           next_transaction := next_transaction d + 1\<rparr>"
  from body dt obtain u d2 where cs: "create_splits (transactionID tx0) r d1 = (Inr u, d2)"
    and tx: "tx = tx0" and d': "d' = add_tags (transactionID tx0) tgs d2"
    by (auto simp: create_body_def Let_def tx0_def d1_def split: option.splits prod.splits sum.splits)
  from create_splits_ok [OF cs] obtain rows where
    rows: "splits d2 = splits d1 @ rows" "map split_amount rows = map snd r"
          "list_all (\<lambda>r. split_transaction r = transactionID tx0) rows"
          "list_all (\<lambda>(s, a). reference_resolves s d1) r" by blast
  from create_splits_frame [OF cs] have fr: "transactions d2 = transactions d1" by simp
  have snd_r: "map snd r = ds" using r len by simp
  have same: "\<And>s'. reference_resolves s' d1 = reference_resolves s' d"
    by (auto simp: reference_resolves_def d1_def split: option.splits)
  have "list_all (\<lambda>s. reference_resolves s d) (map fst r)"
    using rows(4) by (induction r) (auto simp: same)
  moreover have "map fst r = ss" using r len by simp
  ultimately have res: "list_all (\<lambda>s. reference_resolves s d) ss" by simp
  have bal: "magnitude_sum ds < 10 ^ prec \<longrightarrow> exact_sum ds = 0"
  proof
    assume m: "magnitude_sum ds < 10 ^ prec"
    from django_validate_exact [OF nz c m ne] v show "exact_sum ds = 0"
      by (auto split: if_splits)
  qed
  have "transactions d' = transactions d @ [tx]" using d' fr tx by (simp add: d1_def)
  moreover have "splits d' = splits d @ rows" using d' rows(1) by (simp add: d1_def)
  moreover have "map split_amount rows = ds" using rows(2) snd_r by simp
  moreover have "list_all (\<lambda>r. split_transaction r = transactionID tx) rows" using rows(3) tx by simp
  ultimately show ?thesis using ne nz c res bal by blast
qed

lemma django_create_unbalanced:
  assumes "map (normalized django_normalize_amount) ss = map Some ds"
    and "list_all is_cents ds" and "magnitude_sum ds < 10 ^ prec" and "exact_sum ds \<noteq> 0"
  shows "django_create lid dt desc ss tgs nec d =
           (Inl (ValidationError (''Transaction not balanced: splits sum to ''
                   @ str_decimal (cents (exact_sum ds)))), d)"
proof -
  have "ss \<noteq> []" using assms(1,4) by (auto simp: exact_sum_def)
  from django_validate_exact [OF assms(1-3) this] assms(4) show ?thesis
    by (simp add: django_create_def)
qed

lemma quantize2_error: "quantize2 x = Inl e \<Longrightarrow> \<exists>m. e = InvalidOperation m"
  by (cases x) (auto simp: quantize2_def split: if_splits)

lemma dec_add_error: "dec_add a b = Inl e \<Longrightarrow> \<exists>m. e = InvalidOperation m"
  by (cases a; cases b) (auto simp: dec_add_def Let_def split: if_splits bool.splits)

lemma django_normalize_error:
  "django_normalize_amount r = Inl e \<Longrightarrow> is_ValidationError e \<or> (\<exists>m. e = InvalidOperation m)"
  by (auto simp: django_normalize_amount_def split: option.splits dest: quantize2_error)

lemma normalize_loop_error:
  "normalize_loop ss acc tot = Inl e \<Longrightarrow> is_ValidationError e \<or> (\<exists>m. e = InvalidOperation m)"
proof (induction ss arbitrary: acc tot)
  case Nil
  then show ?case by simp
next
  case (Cons s ss)
  then show ?case
    by (auto split: option.splits sum.splits dest: django_normalize_error dec_add_error)
qed

lemma django_validate_error:
  "django_validate ss = Inl e \<Longrightarrow> is_ValidationError e \<or> (\<exists>m. e = InvalidOperation m)"
  by (auto simp: django_validate_def split: if_splits sum.splits prod.splits
           dest: normalize_loop_error quantize2_error)

lemma create_body_error:
  "create_body lid dt desc r tgs nec d = (Inl e, d') \<Longrightarrow>
     is_ValidationError e \<or> (\<exists>m. e = IntegrityError m)"
  by (auto simp: create_body_def Let_def split: option.splits prod.splits sum.splits
           dest: create_splits_error)

lemma ValidationError_not_NotFound: "is_ValidationError e \<Longrightarrow> \<not> is_NotFoundError e"
  by (cases e) auto

lemma django_create_error_kind:
  assumes "django_create lid dt desc ss tgs nec d = (Inl e, d')"
  shows "\<not> is_NotFoundError e"
proof (cases "django_validate ss")
  case (Inl e')
  then have "e = e'" using assms by (simp add: django_create_def)
  then show ?thesis using django_validate_error [OF Inl] ValidationError_not_NotFound by auto
next
  case (Inr r)
  then obtain d2 where "create_body lid dt desc r tgs nec d = (Inl e, d2)"
    using assms by (auto simp: django_create_def atomic_def split: prod.splits sum.splits)
  from create_body_error [OF this] show ?thesis using ValidationError_not_NotFound by auto
qed

section \<open>The in-memory repository\<close>

lemma list_ex_find: "list_ex P xs \<longleftrightarrow> find P xs \<noteq> None"
  by (simp add: find_None_list_ex)

lemma inmemory_normalize_finite:
  "inmemory_normalize_amount r = Inr a \<Longrightarrow> is_finite a \<Longrightarrow> is_cents a"
  by (auto simp: inmemory_normalize_amount_def split: option.splits sum.splits dest: quantize2_finiteD)

lemma mem_resolves_id:
  "mem_resolves s m \<Longrightarrow>
     \<exists>i. (case account_id s of
             Some i \<Rightarrow> Inr i
           | None \<Rightarrow>
               (case account_name s of
                  Some n \<Rightarrow>
                    (case inmemory_get_by_name n m of
                       None \<Rightarrow> Inl (ValidationError
                                 (''Account name '' @ quote @ n @ quote @ '' not found''))
                     | Some acc \<Rightarrow> Inr (stub_id acc))
                | None \<Rightarrow> Inl (ValidationError
                            (''Each split needs '' @ quote @ ''account_id'' @ quote
                               @ '' or '' @ quote @ ''account_name'' @ quote)))) = Inr i"
  by (auto simp: mem_resolves_def inmemory_get_by_name_def list_ex_find
           split: option.splits)

lemma inmemory_loop_exact:
  assumes "map (normalized inmemory_normalize_amount) ss = map Some ds"
    and "list_all is_cents ds"
    and "t + magnitude_sum ds < 10 ^ prec"
    and "list_all (\<lambda>s. mem_resolves s m) ss"
  shows "\<exists>sg' t' sts. inmemory_loop ss acc (Finite sg t (- 2)) m
                      = Inr (acc @ sts, Finite sg' t' (- 2))
                  \<and> map stub_amount sts = ds
                  \<and> signed_value sg' t' = signed_value sg t + exact_sum ds \<and> t' \<le> t + magnitude_sum ds"
  using assms
proof (induction ss arbitrary: ds acc sg t)
  case Nil
  then show ?case by (simp add: exact_sum_def magnitude_sum_def)
next
  case (Cons s ss)
  then obtain a ds' where ds: "ds = a # ds'" by (cases ds) auto
  from Cons.prems ds have na: "normalized inmemory_normalize_amount s = Some a"
    and rest: "map (normalized inmemory_normalize_amount) ss = map Some ds'" by auto
  from normalized_SomeD [OF na] obtain r where r: "amount s = Some r" "inmemory_normalize_amount r = Inr a"
    by blast
  from Cons.prems ds obtain sa ca where a: "a = Finite sa ca (- 2)"
    by (cases a) (auto simp: is_cents_def)
  from Cons.prems(4) have "mem_resolves s m" by simp
  from mem_resolves_id [OF this] obtain i where i: "(case account_id s of
             Some i \<Rightarrow> Inr i
           | None \<Rightarrow>
               (case account_name s of
                  Some n \<Rightarrow>
                    (case inmemory_get_by_name n m of
                       None \<Rightarrow> Inl (ValidationError
                                 (''Account name '' @ quote @ n @ quote @ '' not found''))
                     | Some acc \<Rightarrow> Inr (stub_id acc))
                | None \<Rightarrow> Inl (ValidationError
                            (''Each split needs '' @ quote @ ''account_id'' @ quote
                               @ '' or '' @ quote @ ''account_name'' @ quote)))) = Inr i" by blast
  have mag: "magnitude_sum ds = ca + magnitude_sum ds'"
    by (simp add: ds a magnitude_sum_def cents_of_def)
  have ex: "exact_sum ds = signed_value sa ca + exact_sum ds'"
    by (simp add: ds a exact_sum_def cents_of_def)
  let ?r = "signed_value sg t + signed_value sa ca"
  have bound: "nat \<bar>?r\<bar> \<le> t + ca"
    by (auto simp: signed_value_def)
  have "t + ca < 10 ^ prec" using Cons.prems(3) mag by simp
  with bound have small: "nat \<bar>?r\<bar> < 10 ^ prec" by (rule le_less_trans)
  from dec_add_exact [OF small] obtain sg1 where
    add: "dec_add (Finite sg t (- 2)) (Finite sa ca (- 2)) = Inr (Finite sg1 (nat \<bar>?r\<bar>) (- 2))"
    and sgn: "signed_value sg1 (nat \<bar>?r\<bar>) = ?r" by blast
  have "nat \<bar>?r\<bar> + magnitude_sum ds' < 10 ^ prec" using bound Cons.prems(3) mag by simp
  moreover have "list_all is_cents ds'" using Cons.prems(2) ds by simp
  moreover have "list_all (\<lambda>s. mem_resolves s m) ss" using Cons.prems(4) by simp
  ultimately obtain sg' t' sts where
    ih: "inmemory_loop ss (acc @ [\<lparr>stub_account_id = i, stub_amount = a\<rparr>]) (Finite sg1 (nat \<bar>?r\<bar>) (- 2)) m
           = Inr ((acc @ [\<lparr>stub_account_id = i, stub_amount = a\<rparr>]) @ sts, Finite sg' t' (- 2))"
    and ihm: "map stub_amount sts = ds'"
    and ihs: "signed_value sg' t' = signed_value sg1 (nat \<bar>?r\<bar>) + exact_sum ds'"
    and iht: "t' \<le> nat \<bar>?r\<bar> + magnitude_sum ds'"
    using Cons.IH [OF rest, of "nat \<bar>?r\<bar>" "acc @ [\<lparr>stub_account_id = i, stub_amount = a\<rparr>]" sg1] by blast
  have "inmemory_loop (s # ss) acc (Finite sg t (- 2)) m
          = Inr (acc @ (\<lparr>stub_account_id = i, stub_amount = a\<rparr> # sts), Finite sg' t' (- 2))"
    using r a add ih i by simp
  moreover have "map stub_amount (\<lparr>stub_account_id = i, stub_amount = a\<rparr> # sts) = ds"
    using ihm ds by simp
  moreover have "signed_value sg' t' = signed_value sg t + exact_sum ds" using ihs sgn ex by simp
  moreover have "t' \<le> t + magnitude_sum ds" using iht bound mag by simp
  ultimately show ?case by blast
qed

lemma inmemory_loop_shape:
  assumes "inmemory_loop ss acc tot m = Inr (r, tot')" and "is_finite tot'"
  shows "is_finite tot \<and> (\<exists>sts. r = acc @ sts \<and>
            map (normalized inmemory_normalize_amount) ss = map Some (map stub_amount sts) \<and>
            list_all is_cents (map stub_amount sts) \<and> list_all (\<lambda>s. mem_resolves s m) ss)"
  using assms
proof (induction ss arbitrary: acc tot)
  case Nil
  then show ?case by simp
next
  case (Cons s ss)
  from Cons.prems(1) obtain raw0 a i tot1 where
    am: "amount s = Some raw0" and nm: "inmemory_normalize_amount raw0 = Inr a"
    and ad: "dec_add tot a = Inr tot1"
    and rs: "mem_resolves s m"
    and rec: "inmemory_loop ss (acc @ [\<lparr>stub_account_id = i, stub_amount = a\<rparr>]) tot1 m = Inr (r, tot')"
    by (auto simp: mem_resolves_def inmemory_get_by_name_def list_ex_find
             split: option.splits sum.splits)
  from Cons.IH [OF rec Cons.prems(2)] obtain sts where
    f1: "is_finite tot1" and r: "r = (acc @ [\<lparr>stub_account_id = i, stub_amount = a\<rparr>]) @ sts"
    and nz: "map (normalized inmemory_normalize_amount) ss = map Some (map stub_amount sts)"
    and c: "list_all is_cents (map stub_amount sts)"
    and rr: "list_all (\<lambda>s. mem_resolves s m) ss"
    by blast
  from dec_add_finiteD [OF ad f1] have ft: "is_finite tot" and fa: "is_finite a" by simp_all
  have ca: "is_cents a" by (rule inmemory_normalize_finite [OF nm fa])
  have na: "normalized inmemory_normalize_amount s = Some a" by (simp add: normalized_def am nm)
  let ?sts = "\<lparr>stub_account_id = i, stub_amount = a\<rparr> # sts"
  have "r = acc @ ?sts" using r by simp
  moreover have "map (normalized inmemory_normalize_amount) (s # ss) = map Some (map stub_amount ?sts)"
    using na nz by simp
  moreover have "list_all is_cents (map stub_amount ?sts)" using ca c by simp
  moreover have "list_all (\<lambda>s. mem_resolves s m) (s # ss)" using rs rr by simp
  ultimately show ?case using ft by blast
qed

lemma inmemory_create_unbalanced:
  assumes "map (normalized inmemory_normalize_amount) ss = map Some ds"
    and "list_all is_cents ds" and "magnitude_sum ds < 10 ^ prec" and "exact_sum ds \<noteq> 0"
    and "list_all (\<lambda>s. mem_resolves s m) ss"
  shows "inmemory_create lid day desc ss tgs nec m =
           (Inl (ValidationError (''Transaction not balanced: sum=''
                   @ str_decimal (cents (exact_sum ds)))), m)"
proof -
  have ne: "ss \<noteq> []" using assms(1,4) by (auto simp: exact_sum_def)
  from inmemory_loop_exact [OF assms(1,2) _ assms(5), of 0 "[]" False] assms(3)
  obtain sg' t' sts where
    loop: "inmemory_loop ss [] zero_00 m = Inr (sts, Finite sg' t' (- 2))"
    and s: "signed_value sg' t' = exact_sum ds" and t: "t' \<le> magnitude_sum ds"
    by (auto simp: zero_00_def signed_value_def)
  have small: "t' < 10 ^ prec" using t assms(3) by simp
  have q: "quantize2 (Finite sg' t' (- 2)) = Inr (Finite sg' t' (- 2))"
    by (rule quantize2_idem [OF small])
  have t0: "t' \<noteq> 0" using s assms(4) by (auto simp: signed_value_def split: if_splits)
  have "cents (exact_sum ds) = Finite sg' t' (- 2)"
    using s t0 by (auto simp: cents_def signed_value_def split: if_splits)
  then show ?thesis using loop q ne t0
    by (simp add: inmemory_create_def dec_ne_zero_def)
qed

lemma inmemory_create_success:
  assumes "inmemory_create lid day desc ss tgs nec m = (Inr stx, m')"
  shows "map (normalized inmemory_normalize_amount) ss = map Some (map stub_amount (ts_splits stx)) \<and>
         list_all is_cents (map stub_amount (ts_splits stx)) \<and>
         mem_transactions m' = mem_transactions m @ [stx] \<and>
         (magnitude_sum (map stub_amount (ts_splits stx)) < 10 ^ prec
            \<longrightarrow> exact_sum (map stub_amount (ts_splits stx)) = 0)"
proof -
  from assms have ne: "ss \<noteq> []" by (auto simp: inmemory_create_def split: if_splits)
  from assms ne obtain sts tot q where
    loop: "inmemory_loop ss [] zero_00 m = Inr (sts, tot)" and q: "quantize2 tot = Inr q"
    and z: "\<not> dec_ne_zero q"
    and stx: "ts_splits stx = sts" and m': "mem_transactions m' = mem_transactions m @ [stx]"
    by (auto simp: inmemory_create_def Let_def split: sum.splits if_splits prod.splits)
  from z have "is_finite q" by (cases q) (auto simp: dec_ne_zero_def is_finite_def)
  with q have "is_finite tot" by (auto dest: quantize2_finiteD)
  from inmemory_loop_shape [OF loop this]
  have nz: "map (normalized inmemory_normalize_amount) ss = map Some (map stub_amount sts)"
    and c: "list_all is_cents (map stub_amount sts)"
    and rr: "list_all (\<lambda>s. mem_resolves s m) ss" by auto
  have "exact_sum (map stub_amount sts) = 0" if b: "magnitude_sum (map stub_amount sts) < 10 ^ prec"
  proof (rule ccontr)
    assume "exact_sum (map stub_amount sts) \<noteq> 0"
    from inmemory_create_unbalanced [OF nz c b this rr, of lid day desc tgs nec] assms
    show False by simp
  qed
  then show ?thesis using nz c m' stx by simp
qed

section \<open>The balance check quantizes each split\<close>

lemma normalize_loop_per_split:
  assumes "map amount ss = map Some raws"
  shows "(case normalize_loop ss acc tot of Inl e \<Rightarrow> None | Inr (r, t) \<Rightarrow> Some t)
           = per_split_total raws tot"
  using assms
proof (induction ss arbitrary: raws acc tot)
  case Nil
  then show ?case by simp
next
  case (Cons s ss)
  then obtain r rs where raws: "raws = r # rs" "amount s = Some r" "map amount ss = map Some rs"
    by (cases raws) auto
  show ?case
    using Cons.IH [OF raws(3)] raws
    by (auto simp: django_normalize_amount_def split: option.splits sum.splits)
qed

lemma validate_per_split:
  assumes "map amount ss = map Some raws" and "ss \<noteq> []"
  shows "(\<not> isl (django_validate ss)) = per_split_accepts raws"
  using normalize_loop_per_split [OF assms(1), of "[]" zero_00] assms(2)
  by (auto simp: django_validate_def per_split_accepts_def quantized_zero_def
           split: sum.splits option.splits prod.splits)

section \<open>Accepted transactions\<close>

lemma resolve_account_resolves:
  "reference_resolves s d \<Longrightarrow> \<exists>acc. resolve_account s d = Inr acc"
  by (auto simp: reference_resolves_def resolve_account_def accounts_get_def get_by_name_def
                 list_ex_find split: option.splits)

lemma create_splits_accepts:
  "list_all (\<lambda>(s, a). reference_resolves s d) ds \<Longrightarrow> \<exists>d'. create_splits tx ds d = (Inr (), d')"
proof (induction ds arbitrary: d)
  case Nil
  then show ?case by simp
next
  case (Cons x ds)
  obtain s a where x: "x = (s, a)" by (cases x)
  from Cons.prems x obtain acc where acc: "resolve_account s d = Inr acc"
    using resolve_account_resolves [of s d] by auto
  let ?d1 = "d\<lparr>splits := splits d @ [\<lparr>split_id = next_split d, split_transaction = tx,
                                        split_account = accountID acc, split_amount = a\<rparr>],
               next_split := next_split d + 1\<rparr>"
  have same: "\<And>s'. reference_resolves s' ?d1 = reference_resolves s' d"
    by (auto simp: reference_resolves_def split: option.splits)
  from Cons.prems have "list_all (\<lambda>(s, a). reference_resolves s ?d1) ds"
    by (simp add: same)
  from Cons.IH [OF this] show ?case using x acc by simp
qed

lemma django_create_accepts:
  assumes v: "django_validate ss = Inr r"
    and res: "list_all (\<lambda>s. reference_resolves s d) ss"
    and l: "list_ex (\<lambda>l. ledgerID l = lid) (ledgers d)"
  shows "\<exists>d'. django_create lid (Some day) desc ss tgs nec d
           = (Inr \<lparr>transactionID = next_transaction d, tx_ledger = lid, tx_date = day,
                   tx_desc = desc, tx_necessary = nec\<rparr>, d')"
proof -
  from django_validate_shape [OF v] obtain ds where rz: "r = zip ss ds" "length ds = length ss"
    by blast
  from l obtain lg where lg: "find (\<lambda>l. ledgerID l = lid) (ledgers d) = Some lg"
    by (cases "find (\<lambda>l. ledgerID l = lid) (ledgers d)") (auto simp: find_None_list_ex)
  define tx0 where "tx0 = \<lparr>transactionID = next_transaction d, tx_ledger = lid, tx_date = day,
                           tx_desc = desc, tx_necessary = nec\<rparr>"
  define d1 where "d1 = d\<lparr>transactions := transactions d @ [tx0],
                           next_transaction := next_transaction d + 1\<rparr>"
  have same: "\<And>s'. reference_resolves s' d1 = reference_resolves s' d"
    by (auto simp: reference_resolves_def d1_def split: option.splits)
  have "map fst r = ss" using rz by simp
  with res have "list_all (\<lambda>s. reference_resolves s d1) (map fst r)" by (simp add: same)
  then have "list_all (\<lambda>(s, a). reference_resolves s d1) r"
    by (induction r) auto
  from create_splits_accepts [OF this, of "transactionID tx0"] obtain d2 where
    cs: "create_splits (transactionID tx0) r d1 = (Inr (), d2)" by blast
  have "create_body lid (Some day) desc r tgs nec d
          = (Inr tx0, add_tags (transactionID tx0) tgs d2)"
    using lg cs by (simp add: create_body_def Let_def tx0_def d1_def)
  then show ?thesis using v by (simp add: django_create_def atomic_def tx0_def)
qed

lemma django_create_balanced:
  assumes n: "map (normalized django_normalize_amount) ss = map Some ds"
    and c: "list_all is_cents ds" and m: "magnitude_sum ds < 10 ^ prec" and z: "exact_sum ds = 0"
    and ne: "ss \<noteq> []"
    and res: "list_all (\<lambda>s. reference_resolves s d) ss"
    and l: "list_ex (\<lambda>l. ledgerID l = lid) (ledgers d)"
  shows "\<exists>tx d' rows. django_create lid (Some day) desc ss tgs nec d = (Inr tx, d') \<and>
           tx = \<lparr>transactionID = next_transaction d, tx_ledger = lid, tx_date = day,
                 tx_desc = desc, tx_necessary = nec\<rparr> \<and>
           transactions d' = transactions d @ [tx] \<and>
           splits d' = splits d @ rows \<and> map split_amount rows = ds \<and>
           list_all (\<lambda>r. split_transaction r = transactionID tx) rows"
proof -
  have v: "django_validate ss = Inr (zip ss ds)"
    using django_validate_exact [OF n c m ne] z by simp
  from django_create_accepts [OF v res l, of day desc tgs nec]
  obtain d' where cr: "django_create lid (Some day) desc ss tgs nec d
           = (Inr \<lparr>transactionID = next_transaction d, tx_ledger = lid, tx_date = day,
                   tx_desc = desc, tx_necessary = nec\<rparr>, d')" by auto
  from django_create_success [OF cr] obtain ds' rows where
    a: "map (normalized django_normalize_amount) ss = map Some ds'"
       "transactions d' = transactions d @ [\<lparr>transactionID = next_transaction d, tx_ledger = lid,
           tx_date = day, tx_desc = desc, tx_necessary = nec\<rparr>]"
       "splits d' = splits d @ rows" "map split_amount rows = ds'"
       "list_all (\<lambda>r. split_transaction r = next_transaction d) rows"
    by (elim exE conjE) simp
  from a(1) n have "map Some ds' = map Some ds" by simp
  then have "ds' = ds" by (simp add: inj_map_eq_map)
  then show ?thesis using cr a(2,3,4,5) by auto
qed

lemma inmemory_create_balanced:
  assumes n: "map (normalized inmemory_normalize_amount) ss = map Some ds"
    and c: "list_all is_cents ds" and m: "magnitude_sum ds < 10 ^ prec" and z: "exact_sum ds = 0"
    and ne: "ss \<noteq> []"
    and res: "list_all (\<lambda>s. mem_resolves s mm) ss"
  shows "\<exists>stx. inmemory_create lid day desc ss tgs nec mm
                 = (Inr stx, mm\<lparr>mem_transactions := mem_transactions mm @ [stx],
                                mem_next_transaction := mem_next_transaction mm + 1\<rparr>) \<and>
               map stub_amount (ts_splits stx) = ds \<and> ts_id stx = mem_next_transaction mm \<and>
               ts_date stx = day \<and> ts_description stx = desc \<and> ts_ledger_id stx = lid"
proof -
  from inmemory_loop_exact [OF n c _ res, of 0 "[]" False] m
  obtain sg' t' sts where
    loop: "inmemory_loop ss [] zero_00 mm = Inr (sts, Finite sg' t' (- 2))"
    and sts: "map stub_amount sts = ds"
    and s: "signed_value sg' t' = exact_sum ds" and t: "t' \<le> magnitude_sum ds"
    by (auto simp: zero_00_def signed_value_def)
  have "t' = 0" using s z by (simp add: signed_zero_iff)
  then have q: "quantize2 (Finite sg' t' (- 2)) = Inr (Finite sg' 0 (- 2))"
    using quantize2_idem [of 0 sg'] by simp
  show ?thesis using loop q ne sts
    by (simp add: inmemory_create_def dec_ne_zero_def Let_def)
qed

section \<open>Transactions with one split\<close>

lemma normalized_bound:
  "normalized django_normalize_amount s = Some (Finite sg c e) \<Longrightarrow> e = - 2 \<and> c < 10 ^ prec"
  by (auto simp: normalized_def django_normalize_amount_def
           split: option.splits sum.splits dest: quantize2_Finite)

lemma single_split_nonzero:
  assumes "normalized django_normalize_amount s = Some (Finite sg c (- 2))" and "c \<noteq> 0"
  shows "django_create lid dt desc [s] tgs nec d =
           (Inl (ValidationError (''Transaction not balanced: splits sum to ''
                   @ str_decimal (Finite sg c (- 2)))), d)"
proof -
  have b: "c < 10 ^ prec" using normalized_bound [OF assms(1)] by simp
  have "cents (exact_sum [Finite sg c (- 2)]) = Finite sg c (- 2)"
    using assms(2) by (auto simp: cents_def exact_sum_def cents_of_def signed_value_def)
  moreover have "exact_sum [Finite sg c (- 2)] \<noteq> 0"
    using assms(2) by (auto simp: exact_sum_def cents_of_def signed_value_def)
  ultimately show ?thesis
    using django_create_unbalanced [of "[s]" "[Finite sg c (- 2)]" lid dt desc tgs nec d] assms(1) b
    by (simp add: is_cents_def magnitude_sum_def cents_of_def)
qed

lemma single_split_accepted_zero:
  assumes "django_create lid dt desc [s] tgs nec d = (Inr tx, d')"
  shows "\<exists>sg. normalized django_normalize_amount s = Some (Finite sg 0 (- 2))"
proof -
  from django_create_success [OF assms] obtain ds where
    n: "map (normalized django_normalize_amount) [s] = map Some ds" and c: "list_all is_cents ds"
    and z: "magnitude_sum ds < 10 ^ prec \<longrightarrow> exact_sum ds = 0" by blast
  from n obtain a where ds: "ds = [a]" and na: "normalized django_normalize_amount s = Some a"
    by (cases ds) auto
  from c ds obtain sg k where a: "a = Finite sg k (- 2)" by (cases a) (auto simp: is_cents_def)
  have "k < 10 ^ prec" using normalized_bound na a by blast
  then have "exact_sum ds = 0" using z ds a by (simp add: magnitude_sum_def cents_of_def)
  then have "k = 0" using ds a by (simp add: exact_sum_def cents_of_def signed_value_def split: if_splits)
  then show ?thesis using na a by blast
qed

section \<open>Unresolvable account references\<close>

text \<open>
  C4, as claimed: a call with an unresolvable account reference fails with \<open>NotFoundError\<close>.
  It fails with \<open>ValidationError\<close>: \<open>create\<close> raises \<open>ValidationError("Account id ... not
  found")\<close>, and nothing in the repository raises \<open>NotFoundError\<close>. The state is unchanged.
\<close>

theorem unresolved_reference_not_NotFoundError:
  "django_create 1 (Some 738000) ''Rent'' [split_by_id ''100'' 1, split_by_id ''-100'' 7] [''home''] True db_bank1
     = (Inl (ValidationError ''Account id 7 not found''), db_bank1) \<and>
   \<not> is_NotFoundError (ValidationError ''Account id 7 not found'')"
  by code_simp

text \<open>
  C4, amended: for every \<open>create\<close> call in which some split's account reference
  (\<open>account_id\<close>, else \<open>account_name\<close>) does not resolve to an existing account, the call
  fails and the state is unchanged: neither the transaction nor a split nor a tag is
  persisted. The error is never \<open>NotFoundError\<close>; when the splits pass the balance check,
  the ledger exists and a date is given, it is the \<open>ValidationError\<close> that the lookup of an
  unresolvable split raises, and otherwise the error of the earlier check.
\<close>

theorem unresolved_reference_fails:
  assumes "list_ex (\<lambda>s. \<not> reference_resolves s d) ss"
  shows "\<exists>e. django_create lid dt desc ss tgs nec d = (Inl e, d) \<and> \<not> is_NotFoundError e \<and>
             (\<not> isl (django_validate ss) \<and> list_ex (\<lambda>l. ledgerID l = lid) (ledgers d) \<and> dt \<noteq> None
                \<longrightarrow> is_ValidationError e \<and> list_ex (\<lambda>s. resolve_account s d = Inl e) ss)"
proof -
  obtain res d' where eq: "django_create lid dt desc ss tgs nec d = (res, d')"
    by (cases "django_create lid dt desc ss tgs nec d")
  have "\<exists>e. res = Inl e"
  proof (cases res)
    case (Inl e)
    then show ?thesis by simp
  next
    case (Inr tx)
    from django_create_success [OF eq [unfolded Inr]] have "list_all (\<lambda>s. reference_resolves s d) ss"
      by blast
    with assms show ?thesis by (auto simp: list_all_iff list_ex_iff)
  qed
  then obtain e where e: "res = Inl e" by blast
  have d': "d' = d" using eq e django_create_error_unchanged by blast
  have nf: "\<not> is_NotFoundError e" using eq e django_create_error_kind by blast
  have "is_ValidationError e \<and> list_ex (\<lambda>s. resolve_account s d = Inl e) ss"
    if v: "\<not> isl (django_validate ss)" and l: "list_ex (\<lambda>l. ledgerID l = lid) (ledgers d)"
      and dt: "dt \<noteq> None"
  proof -
    from v obtain r where r: "django_validate ss = Inr r" by (cases "django_validate ss") auto
    from django_validate_shape [OF r] obtain ds where rz: "r = zip ss ds" "length ds = length ss"
      by blast
    from dt obtain day where day: "dt = Some day" by auto
    from l obtain lg where lg: "find (\<lambda>l. ledgerID l = lid) (ledgers d) = Some lg"
      by (cases "find (\<lambda>l. ledgerID l = lid) (ledgers d)") (auto simp: find_None_list_ex)
    define tx0 where "tx0 = \<lparr>transactionID = next_transaction d, tx_ledger = lid, tx_date = day,
                           tx_desc = desc, tx_necessary = nec\<rparr>"
    define d1 where "d1 = d\<lparr>transactions := transactions d @ [tx0],
                           next_transaction := next_transaction d + 1\<rparr>"
    from eq e r obtain d2 where body: "create_body lid dt desc r tgs nec d = (Inl e, d2)"
      by (auto simp: django_create_def atomic_def split: prod.splits sum.splits)
    then obtain d3 where cs: "create_splits (transactionID tx0) r d1 = (Inl e, d3)"
      using day lg
      by (auto simp: create_body_def Let_def tx0_def d1_def split: prod.splits sum.splits)
    have same: "\<And>s'. resolve_account s' d1 = resolve_account s' d"
      by (rule resolve_account_accounts) (simp add: d1_def)
    from create_splits_Inl [OF cs] have "list_ex (\<lambda>(s, a). resolve_account s d = Inl e) r"
      by (simp add: same)
    then have "list_ex (\<lambda>s. resolve_account s d = Inl e) (map fst r)"
      by (induction r) auto
    moreover have "map fst r = ss" using rz by simp
    ultimately show ?thesis using create_splits_error [OF cs] by simp
  qed
  then show ?thesis using eq e d' nf by blast
qed

theorem unresolved_reference_fails_witness:
  "list_ex (\<lambda>s. \<not> reference_resolves s db_bank1) [split_by_id ''100'' 1, split_by_name ''-100'' ''Nowhere''] \<and>
   \<not> isl (django_validate [split_by_id ''100'' 1, split_by_name ''-100'' ''Nowhere'']) \<and>
   list_ex (\<lambda>l. ledgerID l = 1) (ledgers db_bank1) \<and>
   (\<exists>e. django_create 1 (Some 738000) ''Rent'' [split_by_id ''100'' 1, split_by_name ''-100'' ''Nowhere'']
           [''home''] True db_bank1 = (Inl e, db_bank1) \<and>
        \<not> is_NotFoundError e \<and> is_ValidationError e)"
proof -
  have h1: "list_ex (\<lambda>s. \<not> reference_resolves s db_bank1)
              [split_by_id ''100'' 1, split_by_name ''-100'' ''Nowhere'']" by code_simp
  have h2: "\<not> isl (django_validate [split_by_id ''100'' 1, split_by_name ''-100'' ''Nowhere''])"
    by code_simp
  have h3: "list_ex (\<lambda>l. ledgerID l = 1) (ledgers db_bank1)" by code_simp
  from unresolved_reference_fails [OF h1, of 1 "Some 738000" "''Rent''" "[''home'']" True] h2 h3
  show ?thesis using h1 by blast
qed

section \<open>Fewer than two splits\<close>

lemma inmemory_single_accepted_zero:
  assumes "inmemory_create lid day desc [s] tgs nec m = (Inr stx, m')"
  shows "\<exists>sg. normalized inmemory_normalize_amount s = Some (Finite sg 0 (- 2))"
proof -
  from inmemory_create_success [OF assms]
  have n: "map (normalized inmemory_normalize_amount) [s] = map Some (map stub_amount (ts_splits stx))"
    and c: "list_all is_cents (map stub_amount (ts_splits stx))"
    and z: "magnitude_sum (map stub_amount (ts_splits stx)) < 10 ^ prec
            \<longrightarrow> exact_sum (map stub_amount (ts_splits stx)) = 0" by auto
  from n obtain a where ds: "map stub_amount (ts_splits stx) = [a]"
    and na: "normalized inmemory_normalize_amount s = Some a"
    by (cases "map stub_amount (ts_splits stx)") auto
  from c ds obtain sg k where a: "a = Finite sg k (- 2)" by (cases a) (auto simp: is_cents_def)
  have "k < 10 ^ prec" using na a
    by (auto simp: normalized_def inmemory_normalize_amount_def
             split: option.splits sum.splits dest: quantize2_Finite)
  then have "exact_sum [a] = 0" using z ds a by (simp add: magnitude_sum_def cents_of_def)
  then have "k = 0" using a by (simp add: exact_sum_def cents_of_def signed_value_def split: if_splits)
  then show ?thesis using na a by blast
qed

text \<open>
  C2, as claimed: every splits collection with fewer than two entries is rejected. A single
  split whose amount quantizes to \<open>0.00\<close> is accepted and persisted: \<open>create\<close> checks only
  that the collection is not empty ("Transaction must have at least one split.") and that
  the amounts sum to zero.
\<close>

theorem single_zero_split_persisted:
  "django_create 1 (Some 738000) ''Zero'' [split_by_id ''0.00'' 1] [] True db_bank1
  = (Inr \<lparr>transactionID = 1, tx_ledger = 1, tx_date = 738000, tx_desc = ''Zero'', tx_necessary = True\<rparr>,
     db_bank1\<lparr>transactions := [\<lparr>transactionID = 1, tx_ledger = 1, tx_date = 738000, tx_desc = ''Zero'', tx_necessary = True\<rparr>],
       next_transaction := 2,
       splits := [\<lparr>split_id = 1, split_transaction = 1, split_account = 1, split_amount = Finite False 0 (- 2)\<rparr>],
       next_split := 2\<rparr>)"
  by code_simp

text \<open>
  C2, amended: \<open>create\<close> rejects the empty splits collection with a \<open>ValidationError\<close> and
  persists nothing. A collection with a single split is rejected with a \<open>ValidationError\<close>
  naming the sum, and nothing is persisted, when its amount normalizes to a non-zero
  number. A single split whose amount normalizes to \<open>0.00\<close> (or \<open>-0.00\<close>) is accepted when
  its account reference resolves and, for the database repository, the ledger exists and a
  date is given: the transaction is appended and its one split is persisted with that
  amount. A single split is accepted only if its amount normalizes to zero. There is no
  check that a transaction has two splits.
\<close>

theorem fewer_than_two_splits:
  "django_create lid dt desc [] tgs nec d
     = (Inl (ValidationError ''Transaction must have at least one split.''), d) \<and>
   inmemory_create lid day desc [] tgs nec m
     = (Inl (ValidationError ''Transaction must have splits''), m) \<and>
   (normalized django_normalize_amount s = Some (Finite sg c (- 2)) \<and> c \<noteq> 0 \<longrightarrow>
      django_create lid dt desc [s] tgs nec d
        = (Inl (ValidationError (''Transaction not balanced: splits sum to ''
                  @ str_decimal (Finite sg c (- 2)))), d)) \<and>
   (normalized django_normalize_amount s = Some (Finite sg 0 (- 2)) \<and> reference_resolves s d \<and>
    list_ex (\<lambda>l. ledgerID l = lid) (ledgers d) \<longrightarrow>
      (\<exists>tx d' row. django_create lid (Some day) desc [s] tgs nec d = (Inr tx, d') \<and>
         tx = \<lparr>transactionID = next_transaction d, tx_ledger = lid, tx_date = day,
               tx_desc = desc, tx_necessary = nec\<rparr> \<and>
         transactions d' = transactions d @ [tx] \<and>
         splits d' = splits d @ [row] \<and> split_amount row = Finite sg 0 (- 2) \<and>
         split_transaction row = transactionID tx)) \<and>
   (normalized inmemory_normalize_amount s = Some (Finite sg 0 (- 2)) \<and> mem_resolves s m \<longrightarrow>
      (\<exists>stx. inmemory_create lid day desc [s] tgs nec m
                = (Inr stx, m\<lparr>mem_transactions := mem_transactions m @ [stx],
                              mem_next_transaction := mem_next_transaction m + 1\<rparr>) \<and>
              map stub_amount (ts_splits stx) = [Finite sg 0 (- 2)] \<and>
              ts_id stx = mem_next_transaction m \<and> ts_date stx = day \<and>
              ts_description stx = desc \<and> ts_ledger_id stx = lid)) \<and>
   (django_create lid dt desc [s] tgs nec d = (Inr tx, d') \<longrightarrow>
      (\<exists>sg. normalized django_normalize_amount s = Some (Finite sg 0 (- 2)))) \<and>
   (inmemory_create lid day desc [s] tgs nec m = (Inr stx, m') \<longrightarrow>
      (\<exists>sg. normalized inmemory_normalize_amount s = Some (Finite sg 0 (- 2))))"
proof (intro conjI impI)
  show "django_create lid dt desc [] tgs nec d
     = (Inl (ValidationError ''Transaction must have at least one split.''), d)"
    by (simp add: django_create_def django_validate_def)
  show "inmemory_create lid day desc [] tgs nec m
     = (Inl (ValidationError ''Transaction must have splits''), m)"
    by (simp add: inmemory_create_def)
next
  assume "normalized django_normalize_amount s = Some (Finite sg c (- 2)) \<and> c \<noteq> 0"
  then show "django_create lid dt desc [s] tgs nec d
        = (Inl (ValidationError (''Transaction not balanced: splits sum to ''
                  @ str_decimal (Finite sg c (- 2)))), d)"
    using single_split_nonzero [of s sg c lid dt desc tgs nec d] by simp
next
  assume a: "normalized django_normalize_amount s = Some (Finite sg 0 (- 2)) \<and> reference_resolves s d \<and>
    list_ex (\<lambda>l. ledgerID l = lid) (ledgers d)"
  have z: "list_all is_cents [Finite sg 0 (- 2)]" "magnitude_sum [Finite sg 0 (- 2)] < 10 ^ prec"
      "exact_sum [Finite sg 0 (- 2)] = 0"
    by (simp_all add: is_cents_def magnitude_sum_def exact_sum_def cents_of_def signed_value_def)
  have n: "map (normalized django_normalize_amount) [s] = map Some [Finite sg 0 (- 2)]"
    using a by simp
  have rs: "list_all (\<lambda>s. reference_resolves s d) [s]" using a by simp
  have lg: "list_ex (\<lambda>l. ledgerID l = lid) (ledgers d)" using a by simp
  have ne: "[s] \<noteq> []" by simp
  from django_create_balanced [OF n z ne rs lg, of day desc tgs nec]
  obtain tx0 d0 rows where r: "django_create lid (Some day) desc [s] tgs nec d = (Inr tx0, d0)"
      "tx0 = \<lparr>transactionID = next_transaction d, tx_ledger = lid, tx_date = day,
               tx_desc = desc, tx_necessary = nec\<rparr>"
      "transactions d0 = transactions d @ [tx0]" "splits d0 = splits d @ rows"
      "map split_amount rows = [Finite sg 0 (- 2)]"
      "list_all (\<lambda>r. split_transaction r = transactionID tx0) rows"
    by (elim exE conjE) (rule that)
  from r(5) obtain row where rows: "rows = [row]" "split_amount row = Finite sg 0 (- 2)"
    by (cases rows) auto
  show "\<exists>tx d' row. django_create lid (Some day) desc [s] tgs nec d = (Inr tx, d') \<and>
         tx = \<lparr>transactionID = next_transaction d, tx_ledger = lid, tx_date = day,
               tx_desc = desc, tx_necessary = nec\<rparr> \<and>
         transactions d' = transactions d @ [tx] \<and>
         splits d' = splits d @ [row] \<and> split_amount row = Finite sg 0 (- 2) \<and>
         split_transaction row = transactionID tx"
    using r(1,2,3,4,6) rows by auto
next
  assume a: "normalized inmemory_normalize_amount s = Some (Finite sg 0 (- 2)) \<and> mem_resolves s m"
  have z: "list_all is_cents [Finite sg 0 (- 2)]" "magnitude_sum [Finite sg 0 (- 2)] < 10 ^ prec"
      "exact_sum [Finite sg 0 (- 2)] = 0"
    by (simp_all add: is_cents_def magnitude_sum_def exact_sum_def cents_of_def signed_value_def)
  have n: "map (normalized inmemory_normalize_amount) [s] = map Some [Finite sg 0 (- 2)]"
    using a by simp
  have rs: "list_all (\<lambda>s. mem_resolves s m) [s]" using a by simp
  have ne: "[s] \<noteq> []" by simp
  from inmemory_create_balanced [OF n z ne rs, of lid day desc tgs nec]
  show "\<exists>stx. inmemory_create lid day desc [s] tgs nec m
                = (Inr stx, m\<lparr>mem_transactions := mem_transactions m @ [stx],
                              mem_next_transaction := mem_next_transaction m + 1\<rparr>) \<and>
              map stub_amount (ts_splits stx) = [Finite sg 0 (- 2)] \<and>
              ts_id stx = mem_next_transaction m \<and> ts_date stx = day \<and>
              ts_description stx = desc \<and> ts_ledger_id stx = lid"
    .
next
  assume "django_create lid dt desc [s] tgs nec d = (Inr tx, d')"
  then show "\<exists>sg. normalized django_normalize_amount s = Some (Finite sg 0 (- 2))"
    by (rule single_split_accepted_zero)
next
  assume "inmemory_create lid day desc [s] tgs nec m = (Inr stx, m')"
  then show "\<exists>sg. normalized inmemory_normalize_amount s = Some (Finite sg 0 (- 2))"
    by (rule inmemory_single_accepted_zero)
qed

theorem fewer_than_two_splits_witness:
  "normalized django_normalize_amount (split_by_id ''12.5'' 1) = Some (Finite False 1250 (- 2)) \<and>
   (1250::nat) \<noteq> 0 \<and>
   django_create 1 (Some 738000) ''One'' [split_by_id ''12.5'' 1] [] True db_bank1
     = (Inl (ValidationError ''Transaction not balanced: splits sum to 12.50''), db_bank1) \<and>
   normalized django_normalize_amount (split_by_id ''0.00'' 1) = Some (Finite False 0 (- 2)) \<and>
   reference_resolves (split_by_id ''0.00'' 1) db_bank1 \<and>
   list_ex (\<lambda>l. ledgerID l = 1) (ledgers db_bank1) \<and>
   (\<exists>tx d' row. django_create 1 (Some 738000) ''Zero'' [split_by_id ''0.00'' 1] [] True db_bank1
                   = (Inr tx, d') \<and>
      transactions d' = transactions db_bank1 @ [tx] \<and> splits d' = splits db_bank1 @ [row] \<and>
      split_amount row = Finite False 0 (- 2) \<and> split_transaction row = transactionID tx) \<and>
   normalized inmemory_normalize_amount (split_by_id ''-0'' 1) = Some (Finite True 0 (- 2)) \<and>
   mem_resolves (split_by_id ''-0'' 1) mem_bank1 \<and>
   (\<exists>stx. inmemory_create 1 738000 ''Zero'' [split_by_id ''-0'' 1] [] True mem_bank1
             = (Inr stx, mem_bank1\<lparr>mem_transactions := mem_transactions mem_bank1 @ [stx],
                                    mem_next_transaction := mem_next_transaction mem_bank1 + 1\<rparr>) \<and>
           map stub_amount (ts_splits stx) = [Finite True 0 (- 2)] \<and>
           ts_id stx = mem_next_transaction mem_bank1 \<and> ts_date stx = 738000 \<and>
           ts_description stx = ''Zero'' \<and> ts_ledger_id stx = 1) \<and>
   isl (fst (django_create 1 (Some 738000) ''Zero'' [split_by_id ''0.00'' 1] [] True db_bank1)) = False \<and>
   (\<exists>sg. normalized django_normalize_amount (split_by_id ''0.00'' 1) = Some (Finite sg 0 (- 2))) \<and>
   isl (fst (inmemory_create 1 738000 ''Zero'' [split_by_id ''-0'' 1] [] True mem_bank1)) = False \<and>
   (\<exists>sg. normalized inmemory_normalize_amount (split_by_id ''-0'' 1) = Some (Finite sg 0 (- 2)))"
proof -
  have h1: "normalized django_normalize_amount (split_by_id ''12.5'' 1) = Some (Finite False 1250 (- 2))"
    by code_simp
  have s1: "str_decimal (Finite False 1250 (- 2)) = ''12.50''" by code_simp
  have h2: "isl (fst (django_create 1 (Some 738000) ''Zero'' [split_by_id ''0.00'' 1] [] True db_bank1)) = False"
    by code_simp
  have h3: "isl (fst (inmemory_create 1 738000 ''Zero'' [split_by_id ''-0'' 1] [] True mem_bank1)) = False"
    by code_simp
  have a1: "normalized django_normalize_amount (split_by_id ''0.00'' 1) = Some (Finite False 0 (- 2))"
    by code_simp
  have a2: "reference_resolves (split_by_id ''0.00'' 1) db_bank1" by code_simp
  have a3: "list_ex (\<lambda>l. ledgerID l = 1) (ledgers db_bank1)" by code_simp
  have b1: "normalized inmemory_normalize_amount (split_by_id ''-0'' 1) = Some (Finite True 0 (- 2))"
    by code_simp
  have b2: "mem_resolves (split_by_id ''-0'' 1) mem_bank1" by code_simp
  obtain tx d' where e2: "django_create 1 (Some 738000) ''Zero'' [split_by_id ''0.00'' 1] [] True db_bank1 = (Inr tx, d')"
    using h2 by (cases "django_create 1 (Some 738000) ''Zero'' [split_by_id ''0.00'' 1] [] True db_bank1";
                 cases "fst (django_create 1 (Some 738000) ''Zero'' [split_by_id ''0.00'' 1] [] True db_bank1)") auto
  obtain stx m' where e3: "inmemory_create 1 738000 ''Zero'' [split_by_id ''-0'' 1] [] True mem_bank1 = (Inr stx, m')"
    using h3 by (cases "inmemory_create 1 738000 ''Zero'' [split_by_id ''-0'' 1] [] True mem_bank1";
                 cases "fst (inmemory_create 1 738000 ''Zero'' [split_by_id ''-0'' 1] [] True mem_bank1)") auto
  note t1 = fewer_than_two_splits [where lid = 1 and dt = "Some 738000" and desc = "''One''"
              and tgs = "[]" and nec = True and d = db_bank1 and day = 738000 and m = mem_bank1
              and s = "split_by_id ''12.5'' 1" and sg = False and c = 1250,
              THEN conjunct2, THEN conjunct2, THEN conjunct1]
  note t2 = fewer_than_two_splits [where lid = 1 and dt = "Some 738000" and desc = "''Zero''"
              and tgs = "[]" and nec = True and d = db_bank1 and day = 738000 and m = mem_bank1
              and s = "split_by_id ''0.00'' 1" and sg = False and c = 0 and tx = tx and d' = d']
  note t3 = fewer_than_two_splits [where lid = 1 and dt = "Some 738000" and desc = "''Zero''"
              and tgs = "[]" and nec = True and d = db_bank1 and day = 738000 and m = mem_bank1
              and s = "split_by_id ''-0'' 1" and sg = True and c = 0 and stx = stx and m' = m']
  have c1: "django_create 1 (Some 738000) ''One'' [split_by_id ''12.5'' 1] [] True db_bank1
     = (Inl (ValidationError ''Transaction not balanced: splits sum to 12.50''), db_bank1)"
    using t1 h1 s1 by simp
  have c2: "\<exists>tx d' row. django_create 1 (Some 738000) ''Zero'' [split_by_id ''0.00'' 1] [] True db_bank1
                   = (Inr tx, d') \<and>
      transactions d' = transactions db_bank1 @ [tx] \<and> splits d' = splits db_bank1 @ [row] \<and>
      split_amount row = Finite False 0 (- 2) \<and> split_transaction row = transactionID tx"
    using t2 [THEN conjunct2, THEN conjunct2, THEN conjunct2, THEN conjunct1] a1 a2 a3 by blast
  have c3: "\<exists>stx. inmemory_create 1 738000 ''Zero'' [split_by_id ''-0'' 1] [] True mem_bank1
             = (Inr stx, mem_bank1\<lparr>mem_transactions := mem_transactions mem_bank1 @ [stx],
                                    mem_next_transaction := mem_next_transaction mem_bank1 + 1\<rparr>) \<and>
           map stub_amount (ts_splits stx) = [Finite True 0 (- 2)] \<and>
           ts_id stx = mem_next_transaction mem_bank1 \<and> ts_date stx = 738000 \<and>
           ts_description stx = ''Zero'' \<and> ts_ledger_id stx = 1"
    by (rule t3 [THEN conjunct2, THEN conjunct2, THEN conjunct2, THEN conjunct2, THEN conjunct1,
                 THEN mp, OF conjI [OF b1 b2]])
  have c4: "\<exists>sg. normalized django_normalize_amount (split_by_id ''0.00'' 1) = Some (Finite sg 0 (- 2))"
    using t2 [THEN conjunct2, THEN conjunct2, THEN conjunct2, THEN conjunct2, THEN conjunct2, THEN conjunct1] e2
    by blast
  have c5: "\<exists>sg. normalized inmemory_normalize_amount (split_by_id ''-0'' 1) = Some (Finite sg 0 (- 2))"
    using t3 [THEN conjunct2, THEN conjunct2, THEN conjunct2, THEN conjunct2, THEN conjunct2, THEN conjunct2] e3
    by blast
  show ?thesis using h1 c1 a1 a2 a3 c2 b1 b2 c3 h2 c4 h3 c5 by simp
qed

end
